theory Spec2Isabelle
  imports Complex_Main "HOL-Library.Word" "HOL-Library.Char_ord" "HOL-Library.List_Lexorder"
begin

unbundle bit_operations_syntax

section \<open>The embedding\<close>

text \<open>
  The print formatter (\<^verbatim>\<open>src/print-formatter.js\<close> and its other generations in
  \<^verbatim>\<open>src/unnamed/part_000\<close>) and the delivery step of
  \<^verbatim>\<open>src/local-print-agent.js\<close>.

  Conventions. A printer command string is the list of its UTF-16 code units
  (\<open>nat list\<close>); \<^verbatim>\<open>String.fromCharCode(n)\<close> is the code unit \<open>n\<close>. Text that the
  formatter compares or cases on is a \<open>string\<close> whose characters are ASCII. A
  \<^verbatim>\<open>Uint8Array\<close> is a list of \<open>8 word\<close>. A thrown \<^verbatim>\<open>Error\<close> is the \<open>Inl\<close>
  branch of a sum.
\<close>

type_synonym byte = "8 word"

type_synonym codes = "nat list"

datatype error =
    InvalidImageData      \<comment> \<open>\<^verbatim>\<open>Invalid image data: missing required properties\<close>\<close>
  | UnsupportedFormat     \<comment> \<open>\<^verbatim>\<open>Unsupported format type\<close>\<close>
  | RangeError            \<comment> \<open>\<^verbatim>\<open>String.prototype.repeat\<close> with a negative count\<close>
  | TypeError             \<comment> \<open>property access or assignment on a value that is no object\<close>
  | RenderFailed          \<comment> \<open>what the headless browser or the canvas threw\<close>
  | FailedToPrint error   \<comment> \<open>\<^verbatim>\<open>Failed to print <type>: <message>\<close>, the rethrown error\<close>

subsection \<open>Status indicator (\<^verbatim>\<open>getStatusIndicator\<close>)\<close>

text \<open>A status text is the list of its Unicode code points; \<open>codePoints\<close> is the one of
  an ASCII literal.\<close>

definition codePoints :: "string \<Rightarrow> nat list" where
  "codePoints s = map of_char s"

text \<open>\<^verbatim>\<open>String.prototype.toUpperCase\<close> replaces every code point by its upper-case mapping,
  a sequence of code points (two for U+00DF, which becomes \<^verbatim>\<open>SS\<close>). On ASCII, \<open>a..z\<close> go
  to \<open>A..Z\<close> and every other code point stays. The mappings of the code points from 128
  on are those of the engine's Unicode tables: the parameter \<open>special\<close>.\<close>

definition upperPoint :: "(nat \<Rightarrow> nat list) \<Rightarrow> nat \<Rightarrow> nat list" where
  "upperPoint special c =
     (if 97 \<le> c \<and> c \<le> 122 then [c - 32] else if c < 128 then [c] else special c)"

definition toUpperCase :: "(nat \<Rightarrow> nat list) \<Rightarrow> nat list \<Rightarrow> nat list" where
  "toUpperCase special s = concat (map (upperPoint special) s)"

text \<open>The \<^verbatim>\<open>switch\<close> of \<^verbatim>\<open>getStatusIndicator\<close>, in the order of its cases.\<close>

definition getStatusIndicator :: "(nat \<Rightarrow> nat list) \<Rightarrow> nat list \<Rightarrow> nat list" where
  "getStatusIndicator special status =
     (let s = toUpperCase special status in
      if s = codePoints ''NEW'' then codePoints ''N''
      else if s = codePoints ''MODIFIED'' then codePoints ''M''
      else if s = codePoints ''CANCEL'' \<or> s = codePoints ''CANCELLED'' then codePoints ''C''
      else if s = codePoints ''REPEAT'' then codePoints ''R''
      else [])"

text \<open>The reading of ``case-insensitively'' the status claim is checked against: two
  texts are equal up to the case of their letters \<open>A..Z\<close>.\<close>

definition lowerLetter :: "nat \<Rightarrow> nat" where
  "lowerLetter c = (if 65 \<le> c \<and> c \<le> 90 then c + 32 else c)"

definition same_ignoring_case :: "nat list \<Rightarrow> nat list \<Rightarrow> bool" where
  "same_ignoring_case s t = (map lowerLetter s = map lowerLetter t)"

subsection \<open>Rasterizer: pixels to a packed monochrome bitmap\<close>

text \<open>The object \<^verbatim>\<open>convertHTMLToImageNode\<close> returns (\<^verbatim>\<open>imageResult\<close>): the PNG
  buffer, the dimensions and the packed bitmap.\<close>

record artifact =
  imageData :: "byte list"
  width :: nat
  height :: nat
  monochromeData :: "byte list"

text \<open>\<^verbatim>\<open>Math.ceil(width / 8)\<close> on a non-negative integer.\<close>

definition widthBytesOf :: "nat \<Rightarrow> nat" where
  "widthBytesOf w = (w + 7) div 8"

text \<open>
  JavaScript numbers are IEEE 754 doubles. \<open>fl64 q\<close> is the double nearest to the
  rational \<open>q\<close> (ties to the even significand) for \<open>0 \<le> q < 2^53\<close>, which covers
  every intermediate value of the grayscale expression: the significand has 53 bits, so
  \<open>q\<close> is scaled by \<open>2^k\<close> into \<open>[2^52, 2^53)\<close> (\<open>k\<close> is at most 1074, the
  exponent of the smallest subnormal), rounded to an integer and scaled back.
\<close>

definition round_half_even :: "rat \<Rightarrow> int" where
  "round_half_even q =
     (let f = \<lfloor>q\<rfloor>; d = q - of_int f in
      if d < 1 / 2 then f
      else if 1 / 2 < d then f + 1
      else if even f then f else f + 1)"

fun binade :: "nat \<Rightarrow> rat \<Rightarrow> nat" where
  "binade 0 q = 0"
| "binade (Suc n) q = (if 2 ^ 52 \<le> q then 0 else Suc (binade n (2 * q)))"

definition fl64 :: "rat \<Rightarrow> rat" where
  "fl64 q =
     (if q \<le> 0 then 0
      else let k = binade 1074 q in of_int (round_half_even (q * 2 ^ k)) / 2 ^ k)"

text \<open>\<^verbatim>\<open>const gray = 0.299 * r + 0.587 * g + 0.114 * b\<close>: the three literals are
  doubles, each product and each sum (left to right) is rounded.\<close>

definition gray :: "nat \<Rightarrow> nat \<Rightarrow> nat \<Rightarrow> rat" where
  "gray r g b =
     fl64 (fl64 (fl64 (fl64 (299 / 1000) * of_nat r) + fl64 (fl64 (587 / 1000) * of_nat g))
           + fl64 (fl64 (114 / 1000) * of_nat b))"

text \<open>\<^verbatim>\<open>const bit = gray < 128 ? 1 : 0\<close> for the pixel whose red component is at
  \<open>idx\<close> of the RGBA array. A read past the array is \<^verbatim>\<open>undefined\<close>, the sum is
  \<^verbatim>\<open>NaN\<close> and the comparison is false.\<close>

definition inkAt :: "byte list \<Rightarrow> nat \<Rightarrow> bool" where
  "inkAt pixels idx =
     (if idx + 2 < length pixels
      then gray (unat (pixels ! idx)) (unat (pixels ! (idx + 1))) (unat (pixels ! (idx + 2))) < 128
      else False)"

text \<open>The luma of the specification, \<open>0.299 R + 0.587 G + 0.114 B\<close>, in exact
  arithmetic; \<open>gray\<close> above is what the code computes in doubles.\<close>

definition luma :: "nat \<Rightarrow> nat \<Rightarrow> nat \<Rightarrow> rat" where
  "luma r g b = 299 / 1000 * of_nat r + 587 / 1000 * of_nat g + 114 / 1000 * of_nat b"

text \<open>The unit roundoff of doubles, and what \<open>n\<close> roundings can do to a non-negative
  exact value \<open>X\<close>: the computed \<open>x\<close> lies within the factors \<open>(1 - 2^-53)^n\<close> and
  \<open>(1 + 2^-53)^n\<close> of it.\<close>

definition ulp_rel :: rat where
  "ulp_rel = 1 / 2 ^ 53"

definition approx_steps :: "nat \<Rightarrow> rat \<Rightarrow> rat \<Rightarrow> bool" where
  "approx_steps n X x \<longleftrightarrow> X * (1 - ulp_rel) ^ n \<le> x \<and> x \<le> X * (1 + ulp_rel) ^ n"

text \<open>The body of the inner loop: \<^verbatim>\<open>monochromeData[byteIdx] |= 1 << bitPos\<close> when the
  pixel is ink. A write past the end of a typed array is dropped, as \<open>list_update\<close>
  drops it.\<close>

definition plot :: "nat \<Rightarrow> byte list \<Rightarrow> nat \<Rightarrow> byte list \<Rightarrow> nat \<Rightarrow> byte list" where
  "plot w pixels y bitmap x =
     (let idx = (y * w + x) * 4;
          byteIdx = y * widthBytesOf w + x div 8;
          bitPos = 7 - x mod 8
      in if inkAt pixels idx
         then bitmap[byteIdx := (bitmap ! byteIdx) OR push_bit bitPos 1]
         else bitmap)"

text \<open>\<^verbatim>\<open>for (let x = 0; x < width; x++)\<close> and \<^verbatim>\<open>for (let y = 0; y < height; y++)\<close>.\<close>

definition scanRow :: "nat \<Rightarrow> byte list \<Rightarrow> byte list \<Rightarrow> nat \<Rightarrow> byte list" where
  "scanRow w pixels bitmap y = foldl (plot w pixels y) bitmap [0..<w]"

definition monochrome :: "nat \<Rightarrow> nat \<Rightarrow> byte list \<Rightarrow> byte list" where
  "monochrome w h pixels =
     foldl (scanRow w pixels) (replicate (widthBytesOf w * h) 0) [0..<h]"

text \<open>The part of \<^verbatim>\<open>convertHTMLToImageNode\<close> after the canvas has delivered the
  image: \<open>png\<close> is the screenshot buffer, \<open>w\<close> and \<open>h\<close> the image's dimensions,
  \<open>pixels\<close> the RGBA data of \<^verbatim>\<open>getImageData\<close>.\<close>

definition toMonochrome :: "byte list \<Rightarrow> nat \<Rightarrow> nat \<Rightarrow> byte list \<Rightarrow> artifact" where
  "toMonochrome png w h pixels =
     \<lparr>imageData = png, width = w, height = h, monochromeData = monochrome w h pixels\<rparr>"

subsection \<open>Device codec: the raster image command\<close>

text \<open>\<^verbatim>\<open>formatImageForPrinter\<close>. The guard throws on a zero width or height (a
  typed array is always truthy). \<^verbatim>\<open>&\<close> and \<^verbatim>\<open>>>\<close> work on the low 32 bits; the
  bytes they select here are the same on the unbounded value.\<close>

definition formatImageForPrinter :: "artifact \<Rightarrow> error + codes" where
  "formatImageForPrinter imageResult =
     (if width imageResult = 0 \<or> height imageResult = 0 then Inl InvalidImageData
      else
        let widthBytes = widthBytesOf (width imageResult);
            xL = widthBytes AND 0xff;
            xH = drop_bit 8 widthBytes AND 0xff;
            yL = height imageResult AND 0xff;
            yH = drop_bit 8 (height imageResult) AND 0xff
        in Inr ([0x1D, 0x76, 0x30, 0x00, xL, xH, yL, yH]
                @ map unat (monochromeData imageResult)))"

subsection \<open>JavaScript objects and JSON values\<close>

text \<open>A JSON value. Numbers are the integer-valued ones. An object is the list of its
  own properties in JavaScript's property order; no key occurs twice.\<close>

datatype json =
    JNull
  | JBool bool
  | JNum int
  | JStr string
  | JArr "json list"
  | JObj "(string \<times> json) list"

type_synonym 'v object = "(string \<times> 'v) list"

text \<open>Property order: the keys that are array indices (canonical decimal numerals below
  \<open>2^32 - 1\<close>) come first, in ascending numeric order; every other key follows in the order
  of its creation. \<open>setProperty obj k v\<close> is the assignment \<^verbatim>\<open>obj[k] = v\<close>.\<close>

definition isDigit :: "char \<Rightarrow> bool" where
  "isDigit c = (48 \<le> (of_char c :: nat) \<and> (of_char c :: nat) \<le> 57)"

definition decimalValue :: "string \<Rightarrow> nat" where
  "decimalValue s = foldl (\<lambda>a c. 10 * a + (of_char c - 48)) 0 s"

definition arrayIndex :: "string \<Rightarrow> nat option" where
  "arrayIndex k =
     (if k \<noteq> [] \<and> list_all isDigit k \<and> (k = ''0'' \<or> hd k \<noteq> CHR ''0'')
         \<and> decimalValue k < 4294967295
      then Some (decimalValue k) else None)"

fun insertIndex :: "nat \<Rightarrow> string \<times> 'v \<Rightarrow> 'v object \<Rightarrow> 'v object" where
  "insertIndex n p [] = [p]"
| "insertIndex n p (q # qs) =
     (case arrayIndex (fst q) of
        Some m \<Rightarrow> if m < n then q # insertIndex n p qs else p # q # qs
      | None \<Rightarrow> p # q # qs)"

definition setProperty :: "'v object \<Rightarrow> string \<Rightarrow> 'v \<Rightarrow> 'v object" where
  "setProperty obj k v =
     (if k \<in> set (map fst obj)
      then map (\<lambda>(k', v'). if k' = k then (k', v) else (k', v')) obj
      else case arrayIndex k of
             Some n \<Rightarrow> insertIndex n (k, v) obj
           | None \<Rightarrow> obj @ [(k, v)])"

text \<open>The object spread \<^verbatim>\<open>{...target, ...source}\<close>.\<close>

definition spread :: "'v object \<Rightarrow> 'v object \<Rightarrow> 'v object" where
  "spread target source = foldl (\<lambda>obj (k, v). setProperty obj k v) target source"

text \<open>\<^verbatim>\<open>sortObjectKeys\<close> of \<^verbatim>\<open>src/print-formatter.js\<close>: primitives and
  \<^verbatim>\<open>null\<close> are returned as they are, arrays are mapped, and an object is rebuilt by
  assigning its properties to a fresh object in the order of \<^verbatim>\<open>Object.keys(obj).sort()\<close>
  (the order of UTF-16 code units, here the lexicographic order of the characters).\<close>

fun sortObjectKeys :: "json \<Rightarrow> json" where
  "sortObjectKeys (JArr xs) = JArr (map sortObjectKeys xs)"
| "sortObjectKeys (JObj kvs) =
     JObj (foldl (\<lambda>result (k, v). setProperty result k v) []
             (sort_key fst (map (\<lambda>(k, v). (k, sortObjectKeys v)) kvs)))"
| "sortObjectKeys v = v"

text \<open>\<^verbatim>\<open>JSON.stringify\<close>: decimal numbers, quoted strings with the JSON escapes, no
  white space.\<close>

definition digitChar :: "nat \<Rightarrow> char" where
  "digitChar n = ''0123456789abcdef'' ! n"

fun showNat :: "nat \<Rightarrow> string" where
  "showNat n = (if n < 10 then [digitChar n] else showNat (n div 10) @ [digitChar (n mod 10)])"

definition numberToString :: "int \<Rightarrow> string" where
  "numberToString n = (if n < 0 then CHR ''-'' # showNat (nat (- n)) else showNat (nat n))"

definition escapeChar :: "char \<Rightarrow> string" where
  "escapeChar c =
     (let n = (of_char c :: nat) in
      if n = 0x22 then [CHR 0x5C, CHR 0x22]
      else if n = 0x5C then [CHR 0x5C, CHR 0x5C]
      else if n = 8 then [CHR 0x5C, CHR ''b'']
      else if n = 9 then [CHR 0x5C, CHR ''t'']
      else if n = 10 then [CHR 0x5C, CHR ''n'']
      else if n = 12 then [CHR 0x5C, CHR ''f'']
      else if n = 13 then [CHR 0x5C, CHR ''r'']
      else if n < 32 then [CHR 0x5C, CHR ''u'', CHR ''0'', CHR ''0'', digitChar (n div 16), digitChar (n mod 16)]
      else [c])"

definition quoteJSON :: "string \<Rightarrow> string" where
  "quoteJSON s = CHR 0x22 # concat (map escapeChar s) @ [CHR 0x22]"

fun joinWith :: "string \<Rightarrow> string list \<Rightarrow> string" where
  "joinWith sep [] = []"
| "joinWith sep [x] = x"
| "joinWith sep (x # y # ys) = x @ sep @ joinWith sep (y # ys)"

fun stringify :: "json \<Rightarrow> string" where
  "stringify JNull = ''null''"
| "stringify (JBool b) = (if b then ''true'' else ''false'')"
| "stringify (JNum n) = numberToString n"
| "stringify (JStr s) = quoteJSON s"
| "stringify (JArr xs) = ''['' @ joinWith '','' (map stringify xs) @ '']''"
| "stringify (JObj kvs) =
     ''{'' @ joinWith '','' (map (\<lambda>(k, v). quoteJSON k @ '':'' @ stringify v) kvs) @ ''}''"

subsection \<open>Formatter state\<close>

text \<open>\<^verbatim>\<open>this.config\<close> is an object of integer-valued numbers (the paper profile and
  whatever else the caller spreads into it). \<^verbatim>\<open>a || d\<close> on such a property: the default
  when the property is absent or zero.\<close>

type_synonym config = "int object"

definition orDefault :: "config \<Rightarrow> string \<Rightarrow> int \<Rightarrow> int" where
  "orDefault cfg k d = (case map_of cfg k of None \<Rightarrow> d | Some n \<Rightarrow> if n = 0 then d else n)"

record cache_config =
  enabled :: bool
  maxAge :: int
  persistToDisk :: bool

text \<open>What \<^verbatim>\<open>options.cacheConfig\<close> may override.\<close>

record cache_patch =
  setEnabled :: "bool option"
  setMaxAge :: "int option"
  setPersistToDisk :: "bool option"

text \<open>A file of the cache directory: either text that does not parse to a cache entry
  (the read throws), or an entry with its timestamp. The base64 coding of the two buffers
  is Node's; a buffer is stored here as the bytes it decodes to.\<close>

datatype cache_file = Unreadable | Entry int artifact

type_synonym disk = "string \<rightharpoonup> cache_file"

record formatter =
  config :: config
  cacheConfig :: cache_config
  imageCache :: "string \<rightharpoonup> artifact"

text \<open>The constructor of \<^verbatim>\<open>src/print-formatter.js\<close>, and of the first class of
  \<^verbatim>\<open>src/unnamed/part_000\<close> (which adds the text-mode defaults): the defaults first, then
  the spread of the caller's object over them.\<close>

definition defaultCacheConfig :: cache_config where
  "defaultCacheConfig = \<lparr>enabled = True, maxAge = 24 * 60 * 60 * 1000, persistToDisk = True\<rparr>"

definition newFormatter :: "config \<Rightarrow> formatter" where
  "newFormatter cfg =
     \<lparr>config = spread [(''lineWidth'', orDefault cfg ''lineWidth'' 384),
                        (''deviceScaleFactor'', orDefault cfg ''deviceScaleFactor'' 1),
                        (''fontSize'', orDefault cfg ''fontSize'' 24)] cfg,
      cacheConfig = defaultCacheConfig,
      imageCache = Map.empty\<rparr>"

definition newFormatter_part0 :: "config \<Rightarrow> formatter" where
  "newFormatter_part0 cfg =
     \<lparr>config = spread [(''lineWidth'', orDefault cfg ''lineWidth'' 384),
                        (''deviceScaleFactor'', orDefault cfg ''deviceScaleFactor'' 1),
                        (''fontSize'', orDefault cfg ''fontSize'' 24),
                        (''charsPerLine'', orDefault cfg ''charsPerLine'' 32),
                        (''normalSize'', orDefault cfg ''normalSize'' 0),
                        (''largeSize'', orDefault cfg ''largeSize'' 24),
                        (''mediumSize'', orDefault cfg ''mediumSize'' 16),
                        (''smallSize'', orDefault cfg ''smallSize'' 0)] cfg,
      cacheConfig = defaultCacheConfig,
      imageCache = Map.empty\<rparr>"

definition updateConfig :: "formatter \<Rightarrow> config \<Rightarrow> formatter" where
  "updateConfig f newConfig = f\<lparr>config := spread (config f) newConfig\<rparr>"

definition updateCacheConfig :: "formatter \<Rightarrow> cache_patch \<Rightarrow> formatter" where
  "updateCacheConfig f p =
     f\<lparr>cacheConfig :=
         \<lparr>enabled = (case setEnabled p of None \<Rightarrow> enabled (cacheConfig f) | Some b \<Rightarrow> b),
          maxAge = (case setMaxAge p of None \<Rightarrow> maxAge (cacheConfig f) | Some n \<Rightarrow> n),
          persistToDisk =
            (case setPersistToDisk p of None \<Rightarrow> persistToDisk (cacheConfig f) | Some b \<Rightarrow> b)\<rparr>\<rparr>"

text \<open>\<^verbatim>\<open>divider\<close> (first and second class of \<^verbatim>\<open>part_000\<close>):
  \<^verbatim>\<open>"-".repeat(this.config.charsPerLine)\<close>. \<^verbatim>\<open>repeat\<close> throws a \<^verbatim>\<open>RangeError\<close> on a negative
  count and on a result longer than the engine's longest string (\<open>maxLength\<close>), and takes
  a missing count as 0.\<close>

definition divider :: "nat \<Rightarrow> formatter \<Rightarrow> error + string" where
  "divider maxLength f =
     (case map_of (config f) ''charsPerLine'' of
        None \<Rightarrow> Inr []
      | Some n \<Rightarrow> if n < 0 \<or> int maxLength < n then Inl RangeError
                 else Inr (replicate (nat n) CHR ''-''))"

subsection \<open>Content cache\<close>

text \<open>\<^verbatim>\<open>generateContentHash\<close> of \<^verbatim>\<open>src/print-formatter.js\<close>: SHA-256 (Node's
  \<^verbatim>\<open>crypto\<close>, the parameter \<open>sha\<close>) of the JSON text of
  \<^verbatim>\<open>{content: sortObjectKeys(content), type, config: this.config}\<close>.\<close>

definition configJSON :: "config \<Rightarrow> json" where
  "configJSON cfg = JObj (map (\<lambda>(k, n). (k, JNum n)) cfg)"

definition contentString :: "config \<Rightarrow> json \<Rightarrow> string \<Rightarrow> string" where
  "contentString cfg content typ =
     stringify (JObj [(''content'', sortObjectKeys content), (''type'', JStr typ),
                      (''config'', configJSON cfg)])"

definition generateContentHash :: "(string \<Rightarrow> string) \<Rightarrow> config \<Rightarrow> json \<Rightarrow> string \<Rightarrow> string" where
  "generateContentHash sha cfg content typ = sha (contentString cfg content typ)"

text \<open>The relation of the specification between two content values: equal up to the
  order of the keys of their objects, at every depth. An object has no key twice.\<close>

inductive sameUpToKeyOrder :: "json \<Rightarrow> json \<Rightarrow> bool" where
  null: "sameUpToKeyOrder JNull JNull"
| bool: "sameUpToKeyOrder (JBool b) (JBool b)"
| num: "sameUpToKeyOrder (JNum n) (JNum n)"
| str: "sameUpToKeyOrder (JStr s) (JStr s)"
| arr: "list_all2 sameUpToKeyOrder xs ys \<Longrightarrow> sameUpToKeyOrder (JArr xs) (JArr ys)"
| obj: "distinct (map fst xs) \<Longrightarrow> distinct (map fst ys) \<Longrightarrow> set (map fst xs) = set (map fst ys)
        \<Longrightarrow> (\<forall>p\<in>set xs. \<forall>q\<in>set ys. fst p = fst q \<longrightarrow> sameUpToKeyOrder (snd p) (snd q))
        \<Longrightarrow> sameUpToKeyOrder (JObj xs) (JObj ys)"

text \<open>\<^verbatim>\<open>generateContentHash\<close> of \<^verbatim>\<open>src/unnamed/part_000\<close> (line 1684): the content goes
  into the JSON text as it is. Its \<^verbatim>\<open>catch\<close> is for a \<^verbatim>\<open>JSON.stringify\<close> that throws,
  which a JSON value never makes it do.\<close>

definition contentString_part0 :: "config \<Rightarrow> json \<Rightarrow> string \<Rightarrow> string" where
  "contentString_part0 cfg content typ =
     stringify (JObj [(''content'', content), (''type'', JStr typ), (''config'', configJSON cfg)])"

definition generateContentHash_part0 ::
    "(string \<Rightarrow> string) \<Rightarrow> config \<Rightarrow> json \<Rightarrow> string \<Rightarrow> string" where
  "generateContentHash_part0 sha cfg content typ = sha (contentString_part0 cfg content typ)"

text \<open>\<^verbatim>\<open>loadCacheFromDisk\<close>: no file, or a file that cannot be read as an entry, is a
  miss and leaves the disk as it is; an entry older than \<^verbatim>\<open>maxAge\<close> at the time \<open>now\<close>
  of the read (\<^verbatim>\<open>Date.now()\<close>) is unlinked and is a miss; any other entry is returned.
  The result is the disk after the call and the value returned (\<open>None\<close> for
  \<^verbatim>\<open>null\<close>).\<close>

definition cachePath :: "string \<Rightarrow> string" where
  "cachePath hash = hash @ ''.json''"

definition loadCacheFromDisk ::
    "cache_config \<Rightarrow> int \<Rightarrow> disk \<Rightarrow> string \<Rightarrow> disk \<times> artifact option" where
  "loadCacheFromDisk cc now d hash =
     (case d (cachePath hash) of
        None \<Rightarrow> (d, None)
      | Some Unreadable \<Rightarrow> (d, None)
      | Some (Entry timestamp a) \<Rightarrow>
          if now - timestamp > maxAge cc then (d(cachePath hash := None), None)
          else (d, Some a))"

text \<open>\<^verbatim>\<open>saveCacheToDisk\<close> at the time \<open>now\<close> of the write.\<close>

definition saveCacheToDisk :: "int \<Rightarrow> disk \<Rightarrow> string \<Rightarrow> artifact \<Rightarrow> disk" where
  "saveCacheToDisk now d hash imageResult = d(cachePath hash \<mapsto> Entry now imageResult)"

subsection \<open>The image pipeline (\<^verbatim>\<open>printContentAsImage\<close>)\<close>

text \<open>What the pipeline calls outside the model: SHA-256, the two HTML templates
  (\<^verbatim>\<open>formatKOTToHTML\<close>, \<^verbatim>\<open>formatBillToHTML\<close>: pure functions of the configuration and
  the content, which throw when a field they dereference is missing), the headless
  browser with the canvas (\<open>capture\<close>: the PNG, the image's width and height and its RGBA
  data), and the two text layouts of \<^verbatim>\<open>part_000\<close>.\<close>

record env =
  sha256 :: "string \<Rightarrow> string"
  formatKOTToHTML :: "config \<Rightarrow> json object \<Rightarrow> error + string"
  formatBillToHTML :: "config \<Rightarrow> json object \<Rightarrow> error + string"
  capture :: "config \<Rightarrow> string \<Rightarrow> error + (byte list \<times> nat \<times> nat \<times> byte list)"
  formatKOTContent :: "config \<Rightarrow> json object \<Rightarrow> error + codes"
  formatBillContent :: "config \<Rightarrow> json object \<Rightarrow> error + codes"

text \<open>\<^verbatim>\<open>String.prototype.toLowerCase\<close> on ASCII text.\<close>

definition toLowerChar :: "char \<Rightarrow> char" where
  "toLowerChar c =
     (let n = (of_char c :: nat) in if 65 \<le> n \<and> n \<le> 90 then char_of (n + 32) else c)"

definition toLowerCase :: "string \<Rightarrow> string" where
  "toLowerCase s = map toLowerChar s"

definition formatToHTML :: "env \<Rightarrow> config \<Rightarrow> json object \<Rightarrow> string \<Rightarrow> error + string" where
  "formatToHTML e cfg content typ =
     (if toLowerCase typ = ''kot'' then formatKOTToHTML e cfg content
      else if toLowerCase typ = ''bill'' then formatBillToHTML e cfg content
      else Inl UnsupportedFormat)"

definition convertHTMLToImageNode :: "env \<Rightarrow> config \<Rightarrow> string \<Rightarrow> error + artifact" where
  "convertHTMLToImageNode e cfg htmlContent =
     (case capture e cfg htmlContent of
        Inl err \<Rightarrow> Inl err
      | Inr (png, w, h, pixels) \<Rightarrow> Inr (toMonochrome png w h pixels))"

record options =
  printerConfig :: "config option"
  cacheConfigPatch :: "cache_patch option"
  skipCache :: bool
  printMethod :: "string option"

text \<open>The cache lookup of \<^verbatim>\<open>printContentAsImage\<close>: memory first, then the disk, with
  promotion of a disk hit into memory.\<close>

definition lookupCache ::
    "int \<Rightarrow> formatter \<Rightarrow> disk \<Rightarrow> string \<Rightarrow> formatter \<times> disk \<times> artifact option" where
  "lookupCache now f d hash =
     (case imageCache f hash of
        Some a \<Rightarrow> (f, d, Some a)
      | None \<Rightarrow>
          if persistToDisk (cacheConfig f)
          then (case loadCacheFromDisk (cacheConfig f) now d hash of
                  (d', Some a) \<Rightarrow> (f\<lparr>imageCache := (imageCache f)(hash \<mapsto> a)\<rparr>, d', Some a)
                | (d', None) \<Rightarrow> (f, d', None))
          else (f, d, None))"

text \<open>What follows a miss: render, then store in memory and on disk (at the time
  \<open>later\<close>) when the cache is in use.\<close>

definition renderAndStore ::
    "env \<Rightarrow> int \<Rightarrow> bool \<Rightarrow> formatter \<Rightarrow> disk \<Rightarrow> string \<Rightarrow> json object \<Rightarrow> string
      \<Rightarrow> formatter \<times> disk \<times> (error + artifact)" where
  "renderAndStore e later useCache f d hash content typ =
     (case formatToHTML e (config f) content typ of
        Inl err \<Rightarrow> (f, d, Inl err)
      | Inr htmlContent \<Rightarrow>
          (case convertHTMLToImageNode e (config f) htmlContent of
             Inl err \<Rightarrow> (f, d, Inl err)
           | Inr a \<Rightarrow>
               if useCache
               then (f\<lparr>imageCache := (imageCache f)(hash \<mapsto> a)\<rparr>,
                     if persistToDisk (cacheConfig f) then saveCacheToDisk later d hash a else d,
                     Inr a)
               else (f, d, Inr a)))"

definition obtainImage ::
    "env \<Rightarrow> int \<Rightarrow> int \<Rightarrow> options \<Rightarrow> formatter \<Rightarrow> disk \<Rightarrow> string \<Rightarrow> json object \<Rightarrow> string
      \<Rightarrow> formatter \<times> disk \<times> (error + artifact)" where
  "obtainImage e now later opts f d hash content typ =
     (let useCache = enabled (cacheConfig f) \<and> \<not> skipCache opts in
      case (if useCache then lookupCache now f d hash else (f, d, None)) of
        (f', d', Some a) \<Rightarrow> (f', d', Inr a)
      | (f', d', None) \<Rightarrow> renderAndStore e later useCache f' d' hash content typ)"

text \<open>The \<^verbatim>\<open>catch\<close> of the entry points rethrows as \<^verbatim>\<open>Failed to print\<close>.\<close>

definition rethrow :: "error + 'a \<Rightarrow> error + 'a" where
  "rethrow r = (case r of Inl err \<Rightarrow> Inl (FailedToPrint err) | Inr v \<Rightarrow> Inr v)"

definition bindE :: "error + 'a \<Rightarrow> ('a \<Rightarrow> error + 'b) \<Rightarrow> error + 'b" where
  "bindE r k = (case r of Inl err \<Rightarrow> Inl err | Inr v \<Rightarrow> k v)"

text \<open>\<^verbatim>\<open>printContentAsImage\<close> of \<^verbatim>\<open>src/print-formatter.js\<close>. The content object is
  passed by reference and assigned to, so the call returns it with the formatter, the
  disk and the outcome.\<close>

definition printContentAsImage ::
    "env \<Rightarrow> int \<Rightarrow> int \<Rightarrow> formatter \<Rightarrow> disk \<Rightarrow> json object \<Rightarrow> string \<Rightarrow> options
      \<Rightarrow> formatter \<times> disk \<times> json object \<times> (error + codes)" where
  "printContentAsImage e now later f d content typ opts =
     (let f1 = (case printerConfig opts of Some pc \<Rightarrow> updateConfig f pc | None \<Rightarrow> f);
          f2 = (case cacheConfigPatch opts of Some p \<Rightarrow> updateCacheConfig f1 p | None \<Rightarrow> f1);
          content' = setProperty content ''_printMethod'' (JStr ''html-image'');
          contentHash = generateContentHash (sha256 e) (config f2) (JObj content') typ
      in case obtainImage e now later opts f2 d contentHash content' typ of
           (f3, d', r) \<Rightarrow> (f3, d', content', rethrow (bindE r formatImageForPrinter)))"

subsection \<open>The first class of \<^verbatim>\<open>part_000\<close>: text and image entry points\<close>

text \<open>\<^verbatim>\<open>addCuttingCommands\<close>: \<^verbatim>\<open>ESC d 3\<close>, two \<^verbatim>\<open>BEL\<close>, \<^verbatim>\<open>GS V 0\<close>.\<close>

definition addCuttingCommands :: "codes \<Rightarrow> codes" where
  "addCuttingCommands content = content @ [0x1B, 0x64, 0x03] @ [0x07, 0x07] @ [0x1D, 0x56, 0x00]"

definition printContentAsText :: "env \<Rightarrow> formatter \<Rightarrow> json object \<Rightarrow> string \<Rightarrow> error + codes" where
  "printContentAsText e f content typ =
     bindE (if toLowerCase typ = ''kot'' then formatKOTContent e (config f) content
            else if toLowerCase typ = ''bill'' then formatBillContent e (config f) content
            else Inl UnsupportedFormat)
       (\<lambda>formattedContent. Inr (addCuttingCommands formattedContent))"

text \<open>The tail of \<^verbatim>\<open>printContentAsImage\<close> in \<^verbatim>\<open>part_000\<close> (line 212): \<^verbatim>\<open>ESC @\<close>, the
  image command, \<^verbatim>\<open>ESC d 8\<close>, two \<^verbatim>\<open>BEL\<close>, \<^verbatim>\<open>ESC B 3 3 1\<close>, \<^verbatim>\<open>GS V 0\<close> and
  \<^verbatim>\<open>GS V A 3\<close>.\<close>

definition imageJob :: "codes \<Rightarrow> codes" where
  "imageJob printCommands =
     [0x1B, 0x40] @ printCommands @ [0x1B, 0x64, 0x08] @ [0x07, 0x07]
       @ [0x1B, 0x42, 0x03, 0x03, 0x01] @ [0x1D, 0x56, 0x00] @ [0x1D, 0x56, 0x41, 0x03]"

definition printContentAsImage_part0 ::
    "env \<Rightarrow> int \<Rightarrow> int \<Rightarrow> formatter \<Rightarrow> disk \<Rightarrow> json object \<Rightarrow> string \<Rightarrow> options
      \<Rightarrow> formatter \<times> disk \<times> (error + codes)" where
  "printContentAsImage_part0 e now later f d content typ opts =
     (let f1 = (case cacheConfigPatch opts of Some p \<Rightarrow> updateCacheConfig f p | None \<Rightarrow> f);
          contentHash = generateContentHash_part0 (sha256 e) (config f1) (JObj content) typ
      in case obtainImage e now later opts f1 d contentHash content typ of
           (f2, d', r) \<Rightarrow>
             (f2, d', rethrow (bindE (bindE r formatImageForPrinter) (\<lambda>c. Inr (imageJob c)))))"

text \<open>\<^verbatim>\<open>printContent\<close> of \<^verbatim>\<open>part_000\<close>: the print method defaults to text, the content
  is marked with it, and the call goes to the image or the text path.\<close>

definition printContent ::
    "env \<Rightarrow> int \<Rightarrow> int \<Rightarrow> formatter \<Rightarrow> disk \<Rightarrow> json object \<Rightarrow> string \<Rightarrow> options
      \<Rightarrow> formatter \<times> disk \<times> json object \<times> (error + codes)" where
  "printContent e now later f d content typ opts =
     (let method = (case printMethod opts of None \<Rightarrow> ''text'' | Some m \<Rightarrow> if m = [] then ''text'' else m);
          f1 = (case printerConfig opts of Some pc \<Rightarrow> updateConfig f pc | None \<Rightarrow> f);
          content' = setProperty content ''_printMethod'' (JStr method)
      in if method = ''image''
         then (case printContentAsImage_part0 e now later f1 d content' typ opts of
                 (f2, d', r) \<Rightarrow> (f2, d', content', rethrow r))
         else (f1, d, content', rethrow (printContentAsText e f1 content' typ)))"

subsection \<open>Delivery (\<^verbatim>\<open>printToTCPPrinter\<close>)\<close>

text \<open>\<^verbatim>\<open>String.prototype.includes\<close>.\<close>

fun stringIncludes :: "'a list \<Rightarrow> 'a list \<Rightarrow> bool" where
  "stringIncludes [] p = (p = [])"
| "stringIncludes (x # xs) p = (take (length p) (x # xs) = p \<or> stringIncludes xs p)"

text \<open>\<^verbatim>\<open>Buffer.from(data, "binary")\<close> keeps the low byte of every code unit.\<close>

definition toBinary :: "codes \<Rightarrow> codes" where
  "toBinary data = map (\<lambda>c. c mod 256) data"

definition hasCutCommand :: "codes \<Rightarrow> bool" where
  "hasCutCommand data =
     (stringIncludes data [0x1B, 0x64] \<or> stringIncludes data [0x1B, 0x56]
      \<or> stringIncludes data [0x1D, 0x56])"

text \<open>The bytes \<^verbatim>\<open>printToTCPPrinter\<close> writes to the socket (\<^verbatim>\<open>finalBuffer\<close>).\<close>

definition finalBuffer :: "codes \<Rightarrow> codes" where
  "finalBuffer data =
     (if \<not> hasCutCommand data then toBinary data @ [0x1D, 0x56, 0x41, 0x10]
      else toBinary data)"

text \<open>The number of places where a byte string holds the cut command prefix
  \<^verbatim>\<open>GS V\<close>.\<close>

fun occurrences :: "'a list \<Rightarrow> 'a list \<Rightarrow> nat" where
  "occurrences p [] = 0"
| "occurrences p (x # xs) =
     (if take (length p) (x # xs) = p then 1 else 0) + occurrences p xs"

definition cutCount :: "codes \<Rightarrow> nat" where
  "cutCount bytes = occurrences [0x1D, 0x56] bytes"

subsection \<open>Bill item rows of the text layout (second class of \<^verbatim>\<open>part_000\<close>)\<close>

text \<open>An item of a bill. A missing \<^verbatim>\<open>price\<close> or \<^verbatim>\<open>quantity\<close> is \<open>None\<close>; the numbers
  are the integer-valued ones, for which \<^verbatim>\<open>Number.prototype.toString\<close> gives the decimal
  digits and \<^verbatim>\<open>toFixed(2)\<close> the digits followed by \<^verbatim>\<open>.00\<close>.\<close>

record bill_item =
  name :: string
  price :: "int option"
  quantity :: "int option"

definition toFixed2 :: "int \<Rightarrow> string" where
  "toFixed2 n = numberToString n @ ''.00''"

definition padStart :: "nat \<Rightarrow> string \<Rightarrow> string" where
  "padStart n s = replicate (n - length s) CHR '' '' @ s"

definition padEnd :: "nat \<Rightarrow> string \<Rightarrow> string" where
  "padEnd n s = s @ replicate (n - length s) CHR '' ''"

definition isSpace :: "char \<Rightarrow> bool" where
  "isSpace c = ((of_char c :: nat) = 32 \<or> (9 \<le> (of_char c :: nat) \<and> (of_char c :: nat) \<le> 13))"

definition trim :: "string \<Rightarrow> string" where
  "trim s = rev (dropWhile isSpace (rev (dropWhile isSpace s)))"

text \<open>\<^verbatim>\<open>for (let i = 0; i < remainingText.length; i += nameWidth)\<close> with
  \<^verbatim>\<open>remainingText.substring(i, i + nameWidth)\<close>; the width is at least 10 where the loop
  runs.\<close>

function chunksOf :: "nat \<Rightarrow> string \<Rightarrow> string list" where
  "chunksOf n s = (if s = [] \<or> n = 0 then [] else take n s # chunksOf n (drop n s))"
  by pat_completeness auto
termination
  by (relation "measure (\<lambda>(n, s). length s)") auto

text \<open>The callback of \<^verbatim>\<open>items.forEach\<close> in \<^verbatim>\<open>formatBillContent\<close> (line 2380): what one
  item appends to the output. The control strings are \<^verbatim>\<open>ESC a 0\<close> (left), \<^verbatim>\<open>ESC ! 0\<close>
  (normal size), \<^verbatim>\<open>ESC E 1\<close> and \<^verbatim>\<open>ESC E 0\<close> (bold on and off).\<close>

definition orZero :: "int option \<Rightarrow> int" where
  "orZero v = (case v of None \<Rightarrow> 0 | Some n \<Rightarrow> n)"

definition billItemRow :: "int \<Rightarrow> bill_item \<Rightarrow> string" where
  "billItemRow charsPerLine item =
     (let LEFT = [CHR 0x1B, CHR ''a'', CHR 0x00];
          NORMAL_SIZE = [CHR 0x1B, CHR ''!'', CHR 0x00];
          BOLD_ON = [CHR 0x1B, CHR ''E'', CHR 0x01];
          BOLD_OFF = [CHR 0x1B, CHR ''E'', CHR 0x00];
          total = orZero (price item) * orZero (quantity item);
          nameWidth = nat (max 10 (charsPerLine - 22));
          name = trim (name item);
          qty = padStart 3 (case quantity item of None \<Rightarrow> ''0'' | Some q \<Rightarrow> numberToString q)
      in (if length name \<le> nameWidth
          then LEFT @ NORMAL_SIZE @ padEnd nameWidth name
                 @ padStart 8 (numberToString (orZero (price item)))
                 @ BOLD_ON @ qty @ BOLD_OFF
                 @ padStart 10 (toFixed2 total) @ NORMAL_SIZE @ [CHR 0x0A]
          else LEFT @ NORMAL_SIZE @ take nameWidth name
                 @ padStart 8 (''Rs.'' @ numberToString (orZero (price item)))
                 @ BOLD_ON @ qty @ BOLD_OFF
                 @ padStart 10 (''Rs.'' @ toFixed2 total) @ NORMAL_SIZE @ [CHR 0x0A]
                 @ concat (map (\<lambda>chunk. LEFT @ NORMAL_SIZE @ padEnd (nameWidth - 4) chunk
                                   @ replicate 17 CHR '' '' @ NORMAL_SIZE @ [CHR 0x0A])
                             (chunksOf nameWidth (drop nameWidth name))))
         @ [CHR 0x0A])"

declare showNat.simps [simp del]

declare chunksOf.simps [simp del]

subsection \<open>Item names of the bill layout (first class of \<^verbatim>\<open>part_000\<close>)\<close>

text \<open>\<^verbatim>\<open>String.prototype.lastIndexOf\<close> of a one-character text; \<open>None\<close> for \<open>-1\<close>.\<close>

fun lastIndexOf :: "'a \<Rightarrow> 'a list \<Rightarrow> nat option" where
  "lastIndexOf c [] = None"
| "lastIndexOf c (x # xs) =
     (case lastIndexOf c xs of
        Some i \<Rightarrow> Some (Suc i)
      | None \<Rightarrow> if x = c then Some 0 else None)"

text \<open>\<^verbatim>\<open>const itemWidth = Math.floor(this.config.charsPerLine * 0.5)\<close> (line 1391); the
  product is exact on the integers a profile holds.\<close>

definition itemWidthOf :: "int \<Rightarrow> int" where
  "itemWidthOf charsPerLine = charsPerLine div 2"

text \<open>The word wrap of an item name in \<^verbatim>\<open>formatBillContent\<close> (lines 1417 to 1436):
  \<^verbatim>\<open>while (tempName.length > itemWidth)\<close> cuts the name at the last space of its first
  \<open>itemWidth\<close> characters, or at \<open>itemWidth\<close> when there is none, and what is left is the
  last line. \<^verbatim>\<open>substring\<close> takes a negative index as 0. The result is \<open>None\<close> when the
  loop does not end.\<close>

partial_function (option) wrapName :: "int \<Rightarrow> string \<Rightarrow> string list \<Rightarrow> string list option" where
  "wrapName itemWidth tempName nameLines =
     (if int (length tempName) > itemWidth
      then (case lastIndexOf CHR '' '' (take (nat itemWidth) tempName) of
              None \<Rightarrow> wrapName itemWidth (drop (nat itemWidth) tempName)
                        (nameLines @ [take (nat itemWidth) tempName])
            | Some cutPoint \<Rightarrow> wrapName itemWidth (drop (cutPoint + 1) tempName)
                        (nameLines @ [take cutPoint tempName]))
      else Some (if tempName \<noteq> [] then nameLines @ [tempName] else nameLines))"

text \<open>\<^verbatim>\<open>let nameLines = []; let tempName = item.name.trim();\<close> and the loop, for the
  formatter's \<^verbatim>\<open>charsPerLine\<close> (absent, the width is \<^verbatim>\<open>NaN\<close> and the loop is not
  entered).\<close>

definition nameLinesOf :: "formatter \<Rightarrow> string \<Rightarrow> string list option" where
  "nameLinesOf f itemName =
     (case map_of (config f) ''charsPerLine'' of
        None \<Rightarrow> Some (if trim itemName \<noteq> [] then [trim itemName] else [])
      | Some n \<Rightarrow> wrapName (itemWidthOf n) (trim itemName) [])"

subsection \<open>Worked examples\<close>

text \<open>The options of a call that passes none, and an environment for the worked
  examples: the identity for the digest, empty HTML, a capture of 8 by 1 black pixels, and
  fixed text layouts.\<close>

definition noOptions :: options where
  "noOptions = \<lparr>printerConfig = None, cacheConfigPatch = None, skipCache = False, printMethod = None\<rparr>"

definition sampleEnv :: env where
  "sampleEnv =
     \<lparr>sha256 = (\<lambda>s. s),
      formatKOTToHTML = (\<lambda>cfg content. Inr []),
      formatBillToHTML = (\<lambda>cfg content. Inr []),
      capture = (\<lambda>cfg html. Inr ([], 8, 1, replicate 32 0)),
      formatKOTContent = (\<lambda>cfg content. Inr [0x1B, 0x40, 0x4B, 0x4F, 0x54, 0x0A]),
      formatBillContent = (\<lambda>cfg content. Inr [0x1B, 0x40])\<rparr>"

text \<open>A capture of 24 by 1 pixels, black where the flag is set and white elsewhere, whose
  packed bitmap is the three bytes \<open>1B 64 00\<close>.\<close>

definition pixelsOf :: "bool list \<Rightarrow> byte list" where
  "pixelsOf inks = concat (map (\<lambda>ink. if ink then [0, 0, 0, 255] else [255, 255, 255, 255]) inks)"

definition feedPattern :: "bool list" where
  "feedPattern =
     [False, False, False, True, True, False, True, True,
      False, True, True, False, False, True, False, False,
      False, False, False, False, False, False, False, False]"

definition feedPatternEnv :: env where
  "feedPatternEnv = sampleEnv\<lparr>capture := (\<lambda>cfg html. Inr ([], 24, 1, pixelsOf feedPattern))\<rparr>"

text \<open>The entry of the Unicode tables for U+0131, the dotless small letter i, whose
  upper-case mapping is U+0049, the capital letter I; no other entry is used where this
  stands for the tables.\<close>

definition dotlessI :: "nat \<Rightarrow> nat list" where
  "dotlessI c = (if c = 0x131 then [0x49] else [c])"

section \<open>Properties\<close>

subsection \<open>Status indicator\<close>

lemma codePoints_keywords:
  "codePoints ''NEW'' = [78, 69, 87]"
  "codePoints ''MODIFIED'' = [77, 79, 68, 73, 70, 73, 69, 68]"
  "codePoints ''CANCEL'' = [67, 65, 78, 67, 69, 76]"
  "codePoints ''CANCELLED'' = [67, 65, 78, 67, 69, 76, 76, 69, 68]"
  "codePoints ''REPEAT'' = [82, 69, 80, 69, 65, 84]"
  "codePoints ''N'' = [78]" "codePoints ''M'' = [77]" "codePoints ''C'' = [67]"
  "codePoints ''R'' = [82]"
  by (simp_all add: codePoints_def)

lemma case_fold_nat:
  fixes a b :: nat
  shows "((if 97 \<le> a \<and> a \<le> 122 then a - 32 else a) = (if 97 \<le> b \<and> b \<le> 122 then b - 32 else b))
     \<longleftrightarrow> ((if 65 \<le> a \<and> a \<le> 90 then a + 32 else a) = (if 65 \<le> b \<and> b \<le> 90 then b + 32 else b))"
  by (simp split: if_splits) arith

lemma toUpperCase_ascii:
  "\<forall>c\<in>set s. c < 128 \<Longrightarrow>
   toUpperCase special s = map (\<lambda>c. if 97 \<le> c \<and> c \<le> 122 then c - 32 else c) s"
  by (induction s) (simp_all add: toUpperCase_def upperPoint_def)

lemma upper_eq_iff_lower_eq:
  "map (\<lambda>c::nat. if 97 \<le> c \<and> c \<le> 122 then c - 32 else c) s
     = map (\<lambda>c. if 97 \<le> c \<and> c \<le> 122 then c - 32 else c) t
   \<longleftrightarrow> same_ignoring_case s t"
  unfolding same_ignoring_case_def lowerLetter_def
proof (induction s arbitrary: t)
  case Nil
  then show ?case by simp
next
  case (Cons a s)
  then show ?case by (cases t) (auto simp: case_fold_nat)
qed

lemma toUpperCase_keyword_iff:
  assumes "\<forall>c\<in>set s. c < 128"
    and "map (\<lambda>c::nat. if 97 \<le> c \<and> c \<le> 122 then c - 32 else c) k = k"
  shows "toUpperCase special s = k \<longleftrightarrow> same_ignoring_case s k"
  using upper_eq_iff_lower_eq [of s k] assms by (simp add: toUpperCase_ascii)

text \<open>C6 (as amended). The indicator of \<^verbatim>\<open>getStatusIndicator\<close> is one of \<open>N\<close>, \<open>M\<close>,
  \<open>C\<close>, \<open>R\<close> and the empty text, and it is derived from the upper-case form of the status:
  \<open>N\<close> exactly when that form is \<^verbatim>\<open>NEW\<close>, \<open>M\<close> for \<^verbatim>\<open>MODIFIED\<close>, \<open>C\<close> for \<^verbatim>\<open>CANCEL\<close>
  and \<^verbatim>\<open>CANCELLED\<close>, \<open>R\<close> for \<^verbatim>\<open>REPEAT\<close>, and none for every other status, the empty one
  included. For a status of ASCII characters this is the match of the keyword up to the
  case of the letters. The function is total: no status raises an error.\<close>

theorem status_indicator_by_upper_case:
  "getStatusIndicator special status
      \<in> {codePoints ''N'', codePoints ''M'', codePoints ''C'', codePoints ''R'', []}
   \<and> (getStatusIndicator special status = codePoints ''N''
        \<longleftrightarrow> toUpperCase special status = codePoints ''NEW'')
   \<and> (getStatusIndicator special status = codePoints ''M''
        \<longleftrightarrow> toUpperCase special status = codePoints ''MODIFIED'')
   \<and> (getStatusIndicator special status = codePoints ''C''
        \<longleftrightarrow> toUpperCase special status = codePoints ''CANCEL''
          \<or> toUpperCase special status = codePoints ''CANCELLED'')
   \<and> (getStatusIndicator special status = codePoints ''R''
        \<longleftrightarrow> toUpperCase special status = codePoints ''REPEAT'')
   \<and> ((\<forall>c\<in>set status. c < 128) \<longrightarrow>
        getStatusIndicator special status =
          (if same_ignoring_case status (codePoints ''NEW'') then codePoints ''N''
           else if same_ignoring_case status (codePoints ''MODIFIED'') then codePoints ''M''
           else if same_ignoring_case status (codePoints ''CANCEL'')
                   \<or> same_ignoring_case status (codePoints ''CANCELLED'') then codePoints ''C''
           else if same_ignoring_case status (codePoints ''REPEAT'') then codePoints ''R''
           else []))"
proof (intro conjI impI)
  show "getStatusIndicator special status
      \<in> {codePoints ''N'', codePoints ''M'', codePoints ''C'', codePoints ''R'', []}"
    by (simp add: getStatusIndicator_def Let_def)
  show "getStatusIndicator special status = codePoints ''N''
        \<longleftrightarrow> toUpperCase special status = codePoints ''NEW''"
    by (simp add: getStatusIndicator_def Let_def codePoints_keywords)
  show "getStatusIndicator special status = codePoints ''M''
        \<longleftrightarrow> toUpperCase special status = codePoints ''MODIFIED''"
    by (simp add: getStatusIndicator_def Let_def codePoints_keywords)
  show "getStatusIndicator special status = codePoints ''C''
        \<longleftrightarrow> toUpperCase special status = codePoints ''CANCEL''
          \<or> toUpperCase special status = codePoints ''CANCELLED''"
    by (auto simp add: getStatusIndicator_def Let_def codePoints_keywords)
  show "getStatusIndicator special status = codePoints ''R''
        \<longleftrightarrow> toUpperCase special status = codePoints ''REPEAT''"
    by (auto simp add: getStatusIndicator_def Let_def codePoints_keywords)
  assume ascii: "\<forall>c\<in>set status. c < 128"
  have "toUpperCase special status = codePoints ''NEW''
          \<longleftrightarrow> same_ignoring_case status (codePoints ''NEW'')"
    "toUpperCase special status = codePoints ''MODIFIED''
          \<longleftrightarrow> same_ignoring_case status (codePoints ''MODIFIED'')"
    "toUpperCase special status = codePoints ''CANCEL''
          \<longleftrightarrow> same_ignoring_case status (codePoints ''CANCEL'')"
    "toUpperCase special status = codePoints ''CANCELLED''
          \<longleftrightarrow> same_ignoring_case status (codePoints ''CANCELLED'')"
    "toUpperCase special status = codePoints ''REPEAT''
          \<longleftrightarrow> same_ignoring_case status (codePoints ''REPEAT'')"
    by (rule toUpperCase_keyword_iff [OF ascii], simp add: codePoints_keywords)+
  then show "getStatusIndicator special status =
          (if same_ignoring_case status (codePoints ''NEW'') then codePoints ''N''
           else if same_ignoring_case status (codePoints ''MODIFIED'') then codePoints ''M''
           else if same_ignoring_case status (codePoints ''CANCEL'')
                   \<or> same_ignoring_case status (codePoints ''CANCELLED'') then codePoints ''C''
           else if same_ignoring_case status (codePoints ''REPEAT'') then codePoints ''R''
           else [])"
    by (simp add: getStatusIndicator_def Let_def)
qed

theorem status_indicator_by_upper_case_witness:
  "getStatusIndicator dotlessI (codePoints ''Cancelled'') = codePoints ''C''
   \<and> getStatusIndicator dotlessI (codePoints ''new'') = codePoints ''N''
   \<and> getStatusIndicator dotlessI (codePoints ''served'') = []
   \<and> getStatusIndicator dotlessI [] = []"
proof -
  have cp: "codePoints ''Cancelled'' = [67, 97, 110, 99, 101, 108, 108, 101, 100]"
    "codePoints ''new'' = [110, 101, 119]"
    "codePoints ''served'' = [115, 101, 114, 118, 101, 100]"
    by (simp_all add: codePoints_def)
  have "getStatusIndicator dotlessI (codePoints ''Cancelled'') = codePoints ''C''"
    using status_indicator_by_upper_case [of dotlessI "codePoints ''Cancelled''"]
    by (simp add: cp codePoints_keywords same_ignoring_case_def lowerLetter_def)
  moreover have "getStatusIndicator dotlessI (codePoints ''new'') = codePoints ''N''"
    using status_indicator_by_upper_case [of dotlessI "codePoints ''new''"]
    by (simp add: cp codePoints_keywords same_ignoring_case_def lowerLetter_def)
  moreover have "getStatusIndicator dotlessI (codePoints ''served'') = []"
    using status_indicator_by_upper_case [of dotlessI "codePoints ''served''"]
    by (simp add: cp codePoints_keywords same_ignoring_case_def lowerLetter_def)
  moreover have "getStatusIndicator dotlessI [] = []"
    using status_indicator_by_upper_case [of dotlessI "[]"]
    by (simp add: cp codePoints_keywords same_ignoring_case_def lowerLetter_def)
  ultimately show ?thesis by (intro conjI)
qed

text \<open>The claim as stated fails on the status \<^verbatim>\<open>mod\<close>, U+0131, \<^verbatim>\<open>f\<close>, U+0131, \<^verbatim>\<open>ed\<close>: it
  is not \<^verbatim>\<open>MODIFIED\<close> in any case of the letters, yet its upper-case form is, and the
  indicator is \<open>M\<close>.\<close>

theorem status_indicator_counterexample:
  "getStatusIndicator dotlessI [0x6D, 0x6F, 0x64, 0x131, 0x66, 0x131, 0x65, 0x64] = codePoints ''M''
   \<and> \<not> same_ignoring_case [0x6D, 0x6F, 0x64, 0x131, 0x66, 0x131, 0x65, 0x64] (codePoints ''MODIFIED'')"
  by (simp add: getStatusIndicator_def toUpperCase_def upperPoint_def dotlessI_def Let_def
      codePoints_keywords same_ignoring_case_def lowerLetter_def)

subsection \<open>Rasterizer and raster image command\<close>

lemma nat_and_255: "(n::nat) AND 255 = n mod 256"
  using take_bit_eq_mask [of 8 n] by (simp add: take_bit_eq_mod mask_eq_exp_minus_1)

lemma nat_drop_bit_8: "drop_bit 8 (n::nat) = n div 256"
  by (simp add: drop_bit_eq_div)

lemma length_plot: "length (plot w pixels y bitmap x) = length bitmap"
  by (simp add: plot_def Let_def)

lemma length_foldl_plot: "length (foldl (plot w pixels y) bitmap xs) = length bitmap"
  by (induction xs arbitrary: bitmap) (simp_all add: length_plot)

lemma length_scanRow: "length (scanRow w pixels bitmap y) = length bitmap"
  by (simp add: scanRow_def length_foldl_plot)

lemma length_foldl_scanRow: "length (foldl (scanRow w pixels) bitmap ys) = length bitmap"
  by (induction ys arbitrary: bitmap) (simp_all add: length_scanRow)

lemma length_monochrome: "length (monochrome w h pixels) = widthBytesOf w * h"
  by (simp add: monochrome_def length_foldl_scanRow)

lemma formatImageForPrinter_eq:
  "formatImageForPrinter a =
     (if width a = 0 \<or> height a = 0 then Inl InvalidImageData
      else Inr ([0x1D, 0x76, 0x30, 0x00,
                 widthBytesOf (width a) mod 256, widthBytesOf (width a) div 256 mod 256,
                 height a mod 256, height a div 256 mod 256]
                @ map unat (monochromeData a)))"
  by (simp add: formatImageForPrinter_def Let_def nat_and_255 nat_drop_bit_8)

text \<open>Setting one bit of a byte, and what one step of the inner loop does to every bit.\<close>

lemma bit_set_byte:
  fixes a :: byte
  assumes "p < 8"
  shows "bit (a OR 2 ^ p) n \<longleftrightarrow> bit a n \<or> n = p"
  using assms by (auto simp add: bit_or_iff bit_exp_iff)

lemma bit_plot:
  assumes "i < length bitmap"
  shows "bit (plot w pixels y bitmap x ! i) n \<longleftrightarrow>
           bit (bitmap ! i) n
           \<or> (inkAt pixels ((y * w + x) * 4) \<and> y * widthBytesOf w + x div 8 = i \<and> 7 - x mod 8 = n)"
proof (cases "inkAt pixels ((y * w + x) * 4)")
  case True
  then have "plot w pixels y bitmap x ! i =
      (if i = y * widthBytesOf w + x div 8
       then (bitmap ! i) OR 2 ^ (7 - x mod 8) else bitmap ! i)"
    using assms by (simp add: plot_def Let_def nth_list_update)
  then show ?thesis
    using True bit_set_byte [of "7 - x mod 8" "bitmap ! i" n] by auto
next
  case False
  then show ?thesis by (simp add: plot_def Let_def)
qed

lemma bit_foldl_plot:
  assumes "i < length bitmap"
  shows "bit (foldl (plot w pixels y) bitmap xs ! i) n \<longleftrightarrow>
           bit (bitmap ! i) n
           \<or> (\<exists>x\<in>set xs. inkAt pixels ((y * w + x) * 4)
                 \<and> y * widthBytesOf w + x div 8 = i \<and> 7 - x mod 8 = n)"
  using assms
proof (induction xs arbitrary: bitmap)
  case Nil
  then show ?case by simp
next
  case (Cons x xs)
  have "i < length (plot w pixels y bitmap x)"
    using Cons.prems by (simp add: length_plot)
  from Cons.IH [OF this] show ?case
    using Cons.prems by (auto simp add: bit_plot)
qed

lemma bit_scanRow:
  assumes "i < length bitmap"
  shows "bit (scanRow w pixels bitmap y ! i) n \<longleftrightarrow>
           bit (bitmap ! i) n
           \<or> (\<exists>x<w. inkAt pixels ((y * w + x) * 4)
                 \<and> y * widthBytesOf w + x div 8 = i \<and> 7 - x mod 8 = n)"
  using bit_foldl_plot [OF assms, of w pixels y "[0..<w]" n]
  by (auto simp add: scanRow_def)

lemma bit_foldl_scanRow:
  assumes "i < length bitmap"
  shows "bit (foldl (scanRow w pixels) bitmap ys ! i) n \<longleftrightarrow>
           bit (bitmap ! i) n
           \<or> (\<exists>y\<in>set ys. \<exists>x<w. inkAt pixels ((y * w + x) * 4)
                 \<and> y * widthBytesOf w + x div 8 = i \<and> 7 - x mod 8 = n)"
  using assms
proof (induction ys arbitrary: bitmap)
  case Nil
  then show ?case by simp
next
  case (Cons y ys)
  have "i < length (scanRow w pixels bitmap y)"
    using Cons.prems by (simp add: length_scanRow)
  from Cons.IH [OF this] show ?case
    using Cons.prems by (auto simp add: bit_scanRow)
qed

text \<open>A pixel's byte lies inside the bitmap, and no two pixels share a bit.\<close>

lemma div8_less_widthBytes: "x < w \<Longrightarrow> x div 8 < widthBytesOf w"
  unfolding widthBytesOf_def by linarith

lemma cell_index_less:
  assumes "x < w" "y < h"
  shows "y * widthBytesOf w + x div 8 < widthBytesOf w * h"
proof -
  have "y * widthBytesOf w + x div 8 < y * widthBytesOf w + widthBytesOf w"
    using div8_less_widthBytes [OF assms(1)] by simp
  also have "\<dots> = widthBytesOf w * Suc y" by simp
  also have "\<dots> \<le> widthBytesOf w * h"
    using assms(2) by (intro mult_le_mono2) simp
  finally show ?thesis .
qed

lemma cell_inj:
  assumes "x < w" "x' < w"
    and "y' * widthBytesOf w + x' div 8 = y * widthBytesOf w + x div 8"
    and "7 - x' mod 8 = 7 - x mod 8"
  shows "x' = x \<and> y' = y"
proof -
  let ?wb = "widthBytesOf w"
  have a: "x div 8 < ?wb" "x' div 8 < ?wb"
    using assms(1,2) by (simp_all add: div8_less_widthBytes)
  have "(y' * ?wb + x' div 8) div ?wb = y'" "(y * ?wb + x div 8) div ?wb = y"
    using a by simp_all
  then have y: "y' = y" using assms(3) by simp
  then have "x' div 8 = x div 8" using assms(3) by simp
  moreover have "x' mod 8 = x mod 8"
  proof -
    have "x mod 8 < 8" "x' mod 8 < 8" by simp_all
    then show ?thesis using assms(4) by linarith
  qed
  ultimately have "x' = x" by (metis div_mult_mod_eq)
  with y show ?thesis by simp
qed

lemma bit_monochrome:
  assumes "x < w" "y < h"
  shows "bit (monochrome w h pixels ! (y * widthBytesOf w + x div 8)) (7 - x mod 8)
           \<longleftrightarrow> inkAt pixels ((y * w + x) * 4)"
proof -
  let ?i = "y * widthBytesOf w + x div 8"
  have i: "?i < length (replicate (widthBytesOf w * h) (0::byte))"
    using cell_index_less [OF assms] by simp
  have "bit (monochrome w h pixels ! ?i) (7 - x mod 8) \<longleftrightarrow>
          (\<exists>y'<h. \<exists>x'<w. inkAt pixels ((y' * w + x') * 4)
              \<and> y' * widthBytesOf w + x' div 8 = ?i \<and> 7 - x' mod 8 = 7 - x mod 8)"
    unfolding monochrome_def bit_foldl_scanRow [OF i]
    using i by auto
  also have "\<dots> \<longleftrightarrow> inkAt pixels ((y * w + x) * 4)"
    using assms cell_inj [OF assms(1)] by blast
  finally show ?thesis .
qed

lemma hi_byte:
  fixes n :: nat
  assumes "n < 65536"
  shows "n div 256 mod 256 = n div 256" "n mod 256 + 256 * (n div 256) = n"
proof -
  have "n div 256 < 256" using assms by (simp add: less_mult_imp_div_less)
  then show "n div 256 mod 256 = n div 256" by simp
  show "n mod 256 + 256 * (n div 256) = n" by simp
qed

text \<open>C5 (as amended). \<^verbatim>\<open>formatImageForPrinter\<close> throws on an artifact whose width or
  height is zero. On every other artifact it returns the command \<^verbatim>\<open>GS v 0\<close> with mode byte
  0, then four parameter bytes, then one code unit per bitmap byte and nothing else. The
  parameter bytes are the two low bytes of \<open>ceil(width/8)\<close> and the two low bytes of the
  height: \<open>ceil(width/8) mod 256\<close>, \<open>floor(ceil(width/8)/256) mod 256\<close>, \<open>height mod 256\<close>,
  \<open>floor(height/256) mod 256\<close>. When \<open>ceil(width/8)\<close> and the height are below 65536 these
  are the bytes of the claim, each value as a little-endian 16-bit number.\<close>

theorem raster_command_bytes:
  "formatImageForPrinter a =
     (if width a = 0 \<or> height a = 0 then Inl InvalidImageData
      else Inr ([0x1D, 0x76, 0x30, 0x00,
                 widthBytesOf (width a) mod 256, widthBytesOf (width a) div 256 mod 256,
                 height a mod 256, height a div 256 mod 256]
                @ map unat (monochromeData a)))
   \<and> (0 < width a \<and> 0 < height a \<and> widthBytesOf (width a) < 65536 \<and> height a < 65536 \<longrightarrow>
        formatImageForPrinter a =
          Inr ([0x1D, 0x76, 0x30, 0x00,
                widthBytesOf (width a) mod 256, widthBytesOf (width a) div 256,
                height a mod 256, height a div 256]
               @ map unat (monochromeData a)))"
  by (simp add: formatImageForPrinter_eq hi_byte)

theorem raster_command_bytes_witness:
  "formatImageForPrinter
     \<lparr>imageData = [], width = 16, height = 300, monochromeData = replicate 600 0xFF\<rparr>
   = Inr ([0x1D, 0x76, 0x30, 0x00, 2, 0, 44, 1] @ replicate 600 255)"
  using raster_command_bytes
    [of "\<lparr>imageData = [], width = 16, height = 300, monochromeData = replicate 600 0xFF\<rparr>"]
  by (simp add: widthBytesOf_def)

text \<open>The claim as stated fails on an artifact 8 pixels wide and 65536 pixels high: the
  fourth parameter byte is 0, not \<open>floor(65536/256)\<close>.\<close>

theorem raster_command_bytes_counterexample:
  "formatImageForPrinter
      \<lparr>imageData = [], width = 8, height = 65536, monochromeData = replicate 65536 0\<rparr>
   \<noteq> Inr ([0x1D, 0x76, 0x30, 0x00, 1 mod 256, 1 div 256, 65536 mod 256, 65536 div 256]
            @ map unat (replicate 65536 (0::byte)))"
  by (simp add: formatImageForPrinter_eq widthBytesOf_def)

text \<open>C10 (as amended). The bitmap of every conversion has \<open>ceil(width/8) * height\<close> bytes.
  When width and height are positive, \<^verbatim>\<open>formatImageForPrinter\<close> returns an 8-unit header
  followed by exactly that many payload units; when moreover \<open>ceil(width/8)\<close> and the height
  are below 65536, the payload length is the product of the two 16-bit numbers the header
  declares.\<close>

theorem bitmap_length:
  "length (monochromeData (toMonochrome png w h pixels)) = widthBytesOf w * h
   \<and> (0 < w \<and> 0 < h \<longrightarrow>
        (\<exists>hdr payload.
            formatImageForPrinter (toMonochrome png w h pixels) = Inr (hdr @ payload)
          \<and> length hdr = 8 \<and> length payload = widthBytesOf w * h
          \<and> (widthBytesOf w < 65536 \<and> h < 65536 \<longrightarrow>
               (hdr ! 4 + 256 * hdr ! 5) * (hdr ! 6 + 256 * hdr ! 7) = length payload)))"
proof -
  let ?a = "toMonochrome png w h pixels"
  have len: "length (monochromeData ?a) = widthBytesOf w * h"
    by (simp add: toMonochrome_def length_monochrome)
  moreover have "\<exists>hdr payload.
            formatImageForPrinter ?a = Inr (hdr @ payload)
          \<and> length hdr = 8 \<and> length payload = widthBytesOf w * h
          \<and> (widthBytesOf w < 65536 \<and> h < 65536 \<longrightarrow>
               (hdr ! 4 + 256 * hdr ! 5) * (hdr ! 6 + 256 * hdr ! 7) = length payload)"
    if "0 < w" "0 < h"
  proof (intro exI conjI)
    show "formatImageForPrinter ?a =
        Inr ([0x1D, 0x76, 0x30, 0x00,
                 widthBytesOf w mod 256, widthBytesOf w div 256 mod 256,
                 h mod 256, h div 256 mod 256]
                @ map unat (monochromeData ?a))"
      using that by (simp add: formatImageForPrinter_eq toMonochrome_def)
    show "length (map unat (monochromeData ?a)) = widthBytesOf w * h"
      using len by simp
    show "widthBytesOf w < 65536 \<and> h < 65536 \<longrightarrow>
        ([0x1D, 0x76, 0x30, 0x00,
                 widthBytesOf w mod 256, widthBytesOf w div 256 mod 256,
                 h mod 256, h div 256 mod 256] ! 4 + 256 * [0x1D, 0x76, 0x30, 0x00,
                 widthBytesOf w mod 256, widthBytesOf w div 256 mod 256,
                 h mod 256, h div 256 mod 256] ! 5) * ([0x1D, 0x76, 0x30, 0x00,
                 widthBytesOf w mod 256, widthBytesOf w div 256 mod 256,
                 h mod 256, h div 256 mod 256] ! 6 + 256 * [0x1D, 0x76, 0x30, 0x00,
                 widthBytesOf w mod 256, widthBytesOf w div 256 mod 256,
                 h mod 256, h div 256 mod 256] ! 7) = length (map unat (monochromeData ?a))"
      using len by (simp add: hi_byte)
  qed simp
  ultimately show ?thesis by blast
qed

theorem bitmap_length_witness:
  "length (monochromeData (toMonochrome [] 20 3 (replicate 240 0))) = 9
   \<and> (\<exists>hdr payload.
         formatImageForPrinter (toMonochrome [] 20 3 (replicate 240 0)) = Inr (hdr @ payload)
       \<and> length hdr = 8 \<and> length payload = 9
       \<and> (hdr ! 4 + 256 * hdr ! 5) * (hdr ! 6 + 256 * hdr ! 7) = 9)"
proof -
  have wb: "widthBytesOf 20 = 3" by (simp add: widthBytesOf_def)
  have "0 < (20::nat) \<and> 0 < (3::nat)" by simp
  with bitmap_length [of "[]" 20 3 "replicate 240 0"] obtain hdr payload where
    l: "length (monochromeData (toMonochrome [] 20 3 (replicate 240 0))) = widthBytesOf 20 * 3"
    and h: "formatImageForPrinter (toMonochrome [] 20 3 (replicate 240 0)) = Inr (hdr @ payload)"
      "length hdr = 8" "length payload = widthBytesOf 20 * 3"
      "widthBytesOf 20 < 65536 \<and> (3::nat) < 65536 \<longrightarrow>
         (hdr ! 4 + 256 * hdr ! 5) * (hdr ! 6 + 256 * hdr ! 7) = length payload"
    by blast
  show ?thesis
    using l h unfolding wb by (intro conjI exI [of _ hdr] exI [of _ payload]) simp_all
qed

text \<open>The claim as stated fails on a conversion 8 pixels wide and 65536 pixels high: the
  payload has 65536 bytes and the header declares a height of 0.\<close>

theorem bitmap_length_counterexample:
  "\<not> isl (formatImageForPrinter (toMonochrome [] 8 65536 (replicate 2097152 255)))
   \<and> length (drop 8 (projr (formatImageForPrinter
                 (toMonochrome [] 8 65536 (replicate 2097152 255))))) = 65536
   \<and> (projr (formatImageForPrinter (toMonochrome [] 8 65536 (replicate 2097152 255))) ! 4
        + 256 * projr (formatImageForPrinter (toMonochrome [] 8 65536 (replicate 2097152 255))) ! 5)
       * (projr (formatImageForPrinter (toMonochrome [] 8 65536 (replicate 2097152 255))) ! 6
          + 256 * projr (formatImageForPrinter (toMonochrome [] 8 65536 (replicate 2097152 255))) ! 7)
       = 0"
  by (simp add: formatImageForPrinter_eq toMonochrome_def length_monochrome widthBytesOf_def)

text \<open>Evaluating the double rounding: \<open>fl64 q\<close> is \<open>m / 2^k\<close> once \<open>k\<close> scales \<open>q\<close> into
  \<open>[2^52, 2^53)\<close> and \<open>m\<close> is the nearest integer (the even one on a tie).\<close>

lemma binade_eq:
  assumes "0 < q" "k \<le> n" "2 ^ 52 \<le> q * 2 ^ k" "k = 0 \<or> q * 2 ^ (k - 1) < 2 ^ 52"
  shows "binade n q = k"
  using assms
proof (induction n arbitrary: q k)
  case 0
  then show ?case by simp
next
  case (Suc n)
  show ?case
  proof (cases "2 ^ 52 \<le> q")
    case True
    have "k = 0"
    proof (rule ccontr)
      assume "k \<noteq> 0"
      then have "q * 2 ^ (k - 1) < 2 ^ 52" using Suc.prems(4) by simp
      moreover have "q * 1 \<le> q * 2 ^ (k - 1)"
        using Suc.prems(1) by (intro mult_left_mono) simp_all
      ultimately show False using True by simp
    qed
    with True show ?thesis by simp
  next
    case False
    then have "k \<noteq> 0" using Suc.prems(3) by (cases k) auto
    then obtain k' where k: "k = Suc k'" by (cases k) auto
    have "binade n (2 * q) = k'"
    proof (rule Suc.IH)
      show "0 < 2 * q" using Suc.prems(1) by simp
      show "k' \<le> n" using Suc.prems(2) k by simp
      show "2 ^ 52 \<le> 2 * q * 2 ^ k'" using Suc.prems(3) k by (simp add: mult.assoc mult.left_commute)
      show "k' = 0 \<or> 2 * q * 2 ^ (k' - 1) < 2 ^ 52"
      proof (cases k')
        case 0
        then show ?thesis by simp
      next
        case (Suc j)
        then show ?thesis using Suc.prems(4) k by (simp add: mult.assoc mult.left_commute)
      qed
    qed
    with False k show ?thesis by simp
  qed
qed

lemma round_half_even_eq:
  assumes "2 * \<bar>q - of_int m\<bar> < 1 \<or> (2 * \<bar>q - of_int m\<bar> = 1 \<and> even m)"
  shows "round_half_even q = m"
proof -
  consider (below) "of_int m \<le> q" "2 * (q - of_int m) < 1"
    | (above) "q < of_int m" "2 * (of_int m - q) < 1"
    | (tie_up) "q = of_int m + 1 / 2" "even m"
    | (tie_down) "q = of_int m - 1 / 2" "even m"
    using assms by (cases "of_int m \<le> q") (auto simp: abs_if field_simps)
  then show ?thesis
  proof cases
    case below
    then have "\<lfloor>q\<rfloor> = m" by (intro floor_unique) auto
    then show ?thesis using below by (simp add: round_half_even_def Let_def)
  next
    case above
    then have "\<lfloor>q\<rfloor> = m - 1" by (intro floor_unique) auto
    then show ?thesis using above by (auto simp add: round_half_even_def Let_def)
  next
    case tie_up
    then have "\<lfloor>q\<rfloor> = m" by (intro floor_unique) auto
    then show ?thesis using tie_up by (simp add: round_half_even_def Let_def)
  next
    case tie_down
    then have "\<lfloor>q\<rfloor> = m - 1" by (intro floor_unique) auto
    then show ?thesis using tie_down by (auto simp add: round_half_even_def Let_def)
  qed
qed

lemma fl64_eq:
  assumes "0 < q" "k \<le> 1074" "2 ^ 52 \<le> q * 2 ^ k" "k = 0 \<or> q * 2 ^ (k - 1) < 2 ^ 52"
    and "2 * \<bar>q * 2 ^ k - of_int m\<bar> < 1 \<or> (2 * \<bar>q * 2 ^ k - of_int m\<bar> = 1 \<and> even m)"
  shows "fl64 q = of_int m / 2 ^ k"
  using assms(1) binade_eq [OF assms(1-4)] round_half_even_eq [OF assms(5)]
  by (simp add: fl64_def Let_def)

lemma fl64_299: "fl64 (299 / 1000) = 5386305154335113 / 2 ^ 54"
  using fl64_eq [of "299 / 1000" 54 5386305154335113] by simp

lemma fl64_587: "fl64 (587 / 1000) = 5287225962532962 / 2 ^ 53"
  using fl64_eq [of "587 / 1000" 53 5287225962532962] by simp

lemma fl64_114: "fl64 (114 / 1000) = 8214565720323785 / 2 ^ 56"
  using fl64_eq [of "114 / 1000" 56 8214565720323785] by simp

lemma gray_mid: "gray 128 128 128 = 128 - 1 / 2 ^ 46"
proof -
  have p1: "fl64 (5386305154335113 / 2 ^ 54 * 128) = 5386305154335113 / 2 ^ 47"
    using fl64_eq [of "5386305154335113 / 2 ^ 54 * 128" 47 5386305154335113] by simp
  have p2: "fl64 (5287225962532962 / 2 ^ 53 * 128) = 5287225962532962 / 2 ^ 46"
    using fl64_eq [of "5287225962532962 / 2 ^ 53 * 128" 46 5287225962532962] by simp
  have p3: "fl64 (8214565720323785 / 2 ^ 56 * 128) = 8214565720323785 / 2 ^ 49"
    using fl64_eq [of "8214565720323785 / 2 ^ 56 * 128" 49 8214565720323785] by simp
  have s1: "fl64 (5386305154335113 / 2 ^ 47 + 5287225962532962 / 2 ^ 46) = 7980378539700518 / 2 ^ 46"
    using fl64_eq [of "5386305154335113 / 2 ^ 47 + 5287225962532962 / 2 ^ 46" 46 7980378539700518] by simp
  have s2: "fl64 (7980378539700518 / 2 ^ 46 + 8214565720323785 / 2 ^ 49) = 9007199254740991 / 2 ^ 46"
    using fl64_eq [of "7980378539700518 / 2 ^ 46 + 8214565720323785 / 2 ^ 49" 46 9007199254740991] by simp
  show ?thesis
    unfolding gray_def fl64_299 fl64_587 fl64_114
    by (simp only: of_nat_numeral p1 p2 p3 s1 s2) simp
qed

lemma gray_black: "gray 0 0 0 = 0"
  by (simp add: gray_def fl64_def)

text \<open>The error of the double rounding: one rounding changes a value of at least
  \<open>1/16\<close> by a relative \<open>2^-53\<close> at most, so the computed sum is within four roundings of
  the exact luma, and the two fall on the same side of 128 unless the luma is 128.\<close>

lemma round_half_even_error: "\<bar>of_int (round_half_even x) - x\<bar> \<le> 1 / 2"
proof -
  define f where "f = \<lfloor>x\<rfloor>"
  define d where "d = x - of_int f"
  have fl: "of_int f \<le> x" "x < of_int f + 1" unfolding f_def by linarith+
  consider "d < 1 / 2" | "1 / 2 < d" | "d = 1 / 2" by linarith
  then show ?thesis
  proof cases
    case 1
    then have "round_half_even x = f"
      by (simp add: round_half_even_def Let_def d_def f_def)
    then show ?thesis
      unfolding abs_le_iff using 1 fl unfolding d_def by simp
  next
    case 2
    then have "round_half_even x = f + 1"
      by (simp add: round_half_even_def Let_def d_def f_def)
    then show ?thesis
      unfolding abs_le_iff using 2 fl unfolding d_def by simp
  next
    case 3
    then have "round_half_even x = f \<or> round_half_even x = f + 1"
      by (simp add: round_half_even_def Let_def d_def f_def)
    then show ?thesis
      unfolding abs_le_iff using 3 fl unfolding d_def by auto
  qed
qed

lemma binade_scaled:
  "0 < q \<Longrightarrow> 2 ^ 52 \<le> q * 2 ^ n \<Longrightarrow> 2 ^ 52 \<le> q * 2 ^ binade n q"
proof (induction n arbitrary: q)
  case 0
  then show ?case by simp
next
  case (Suc n)
  show ?case
  proof (cases "2 ^ 52 \<le> q")
    case True
    then show ?thesis by simp
  next
    case False
    have "2 ^ 52 \<le> 2 * q * 2 ^ binade n (2 * q)"
      using Suc.prems by (intro Suc.IH) (simp_all add: mult.assoc mult.left_commute)
    then show ?thesis using False by (simp add: mult.assoc mult.left_commute)
  qed
qed


lemma fl64_relative:
  assumes "1 / 16 \<le> q"
  shows "q * (1 - ulp_rel) \<le> fl64 q \<and> fl64 q \<le> q * (1 + ulp_rel)"
proof -
  define k where "k = binade 1074 q"
  define s where "s = q * 2 ^ k"
  define m where "m = round_half_even s"
  have q: "0 < q" using assms by simp
  have "(2::rat) ^ 56 \<le> 2 ^ 1074" by (rule power_increasing) simp_all
  then have "(2::rat) ^ 52 \<le> 1 / 16 * 2 ^ 1074" by simp
  also have "\<dots> \<le> q * 2 ^ 1074" using assms by (intro mult_right_mono) simp_all
  finally have s52: "2 ^ 52 \<le> s"
    unfolding s_def k_def using q by (intro binade_scaled)
  have fl: "fl64 q = of_int m / 2 ^ k"
    using q by (simp add: fl64_def Let_def m_def s_def k_def)
  have err: "\<bar>of_int m - s\<bar> \<le> 1 / 2"
    unfolding m_def by (rule round_half_even_error)
  have p: "(0::rat) < 2 ^ k" by simp
  have "fl64 q - q = (of_int m - s) / 2 ^ k"
    unfolding fl s_def by (simp add: diff_divide_distrib)
  then have "\<bar>fl64 q - q\<bar> = \<bar>of_int m - s\<bar> / 2 ^ k"
    by simp
  also have "\<dots> \<le> (1 / 2) / 2 ^ k"
    using err p by (intro divide_right_mono) simp_all
  also have "\<dots> \<le> q * ulp_rel"
  proof -
    have "2 ^ 52 / 2 ^ k \<le> q"
      using s52 p by (simp add: s_def pos_divide_le_eq)
    then have "2 ^ 52 / 2 ^ k * (1 / 2 ^ 53) \<le> q * (1 / 2 ^ 53)"
      by (intro mult_right_mono) simp_all
    moreover have "(2::rat) ^ 52 / 2 ^ k * (1 / 2 ^ 53) = (1 / 2) / 2 ^ k"
      by simp
    ultimately show ?thesis by (simp add: ulp_rel_def)
  qed
  finally have "\<bar>fl64 q - q\<bar> \<le> q * ulp_rel" .
  then show ?thesis by (simp add: abs_le_iff algebra_simps)
qed

lemma ulp_rel_bounds: "0 < ulp_rel" "ulp_rel < 1" "0 \<le> 1 - ulp_rel" "1 - ulp_rel \<le> 1"
  "1 \<le> 1 + ulp_rel"
  by (simp_all add: ulp_rel_def)

lemma approx_steps_refl: "approx_steps 0 X X"
  by (simp add: approx_steps_def)

lemma approx_steps_mult:
  assumes "approx_steps n X x" "0 \<le> c"
  shows "approx_steps n (X * c) (x * c)"
proof -
  have "X * (1 - ulp_rel) ^ n * c \<le> x * c" "x * c \<le> X * (1 + ulp_rel) ^ n * c"
    using assms by (auto simp add: approx_steps_def intro: mult_right_mono)
  then show ?thesis by (simp add: approx_steps_def mult.assoc mult.left_commute mult.commute)
qed

lemma approx_steps_add:
  assumes "approx_steps n X x" "approx_steps m Y y" "0 \<le> Y" "m \<le> n"
  shows "approx_steps n (X + Y) (x + y)"
proof -
  have "(1 - ulp_rel) ^ n \<le> (1 - ulp_rel) ^ m"
    using assms(4) ulp_rel_bounds by (intro power_decreasing) simp_all
  then have "Y * (1 - ulp_rel) ^ n \<le> Y * (1 - ulp_rel) ^ m"
    using assms(3) by (intro mult_left_mono)
  moreover have "(1 + ulp_rel) ^ m \<le> (1 + ulp_rel) ^ n"
    using assms(4) ulp_rel_bounds by (intro power_increasing) simp_all
  then have "Y * (1 + ulp_rel) ^ m \<le> Y * (1 + ulp_rel) ^ n"
    using assms(3) by (intro mult_left_mono)
  ultimately show ?thesis
    using assms(1,2) by (simp add: approx_steps_def distrib_right)
qed

lemma approx_steps_fl64:
  assumes "approx_steps n X x" "X = 0 \<or> 57 / 500 \<le> X" "n \<le> 3"
  shows "approx_steps (Suc n) X (fl64 x)"
proof (cases "X = 0")
  case True
  then have "x = 0" using assms(1) by (simp add: approx_steps_def)
  then show ?thesis using True by (simp add: approx_steps_def fl64_def)
next
  case False
  then have X: "57 / 500 \<le> X" using assms(2) by simp
  have "(1 - ulp_rel) ^ 3 \<le> (1 - ulp_rel) ^ n"
    using assms(3) ulp_rel_bounds by (intro power_decreasing) simp_all
  moreover have "(9 / 10 :: rat) \<le> (1 - ulp_rel) ^ 3"
    by (simp add: ulp_rel_def power_divide)
  ultimately have h: "9 / 10 \<le> (1 - ulp_rel) ^ n" by simp
  have "57 / 500 * (9 / 10) \<le> X * (1 - ulp_rel) ^ n"
    using X h by (intro mult_mono) simp_all
  moreover have "X * (1 - ulp_rel) ^ n \<le> x" using assms(1) by (simp add: approx_steps_def)
  ultimately have x: "1 / 16 \<le> x" by linarith
  have lo: "X * (1 - ulp_rel) ^ n * (1 - ulp_rel) \<le> x * (1 - ulp_rel)"
    using assms(1) ulp_rel_bounds by (intro mult_right_mono) (simp_all add: approx_steps_def)
  have hi: "x * (1 + ulp_rel) \<le> X * (1 + ulp_rel) ^ n * (1 + ulp_rel)"
    using assms(1) ulp_rel_bounds by (intro mult_right_mono) (simp_all add: approx_steps_def)
  have "X * (1 - ulp_rel) ^ Suc n = X * (1 - ulp_rel) ^ n * (1 - ulp_rel)"
    "X * (1 + ulp_rel) ^ Suc n = X * (1 + ulp_rel) ^ n * (1 + ulp_rel)"
    by simp_all
  then show ?thesis
    unfolding approx_steps_def using fl64_relative [OF x] lo hi by linarith
qed

lemma scaled_nat: "0 \<le> c \<Longrightarrow> 57 / 500 \<le> c \<Longrightarrow> c * of_nat n = 0 \<or> 57 / 500 \<le> c * (of_nat n :: rat)"
proof (cases n)
  case 0
  then show ?thesis by simp
next
  case (Suc j)
  assume c: "0 \<le> c" "57 / 500 \<le> c"
  have "c * 1 \<le> c * (of_nat n :: rat)"
    using c Suc by (intro mult_left_mono) simp_all
  then have "c \<le> c * of_nat n" by simp
  then show ?thesis using c by linarith
qed

lemma approx_steps_gray: "approx_steps 4 (luma r g b) (gray r g b)"
proof -
  let ?A = "299 / 1000 * of_nat r :: rat"
  let ?B = "587 / 1000 * of_nat g :: rat"
  let ?C = "114 / 1000 * of_nat b :: rat"
  have nz: "?A = 0 \<or> 57 / 500 \<le> ?A" "?B = 0 \<or> 57 / 500 \<le> ?B" "?C = 0 \<or> 57 / 500 \<le> ?C"
    using scaled_nat [of "299 / 1000" r] scaled_nat [of "587 / 1000" g] scaled_nat [of "114 / 1000" b]
    by simp_all
  have pos: "0 \<le> ?A" "0 \<le> ?B" "0 \<le> ?C" by simp_all
  have c1: "approx_steps 1 (299 / 1000) (fl64 (299 / 1000))"
    using approx_steps_fl64 [OF approx_steps_refl, of "299 / 1000"] by simp
  have c2: "approx_steps 1 (587 / 1000) (fl64 (587 / 1000))"
    using approx_steps_fl64 [OF approx_steps_refl, of "587 / 1000"] by simp
  have c3: "approx_steps 1 (114 / 1000) (fl64 (114 / 1000))"
    using approx_steps_fl64 [OF approx_steps_refl, of "114 / 1000"] by simp
  have p1: "approx_steps 2 ?A (fl64 (fl64 (299 / 1000) * of_nat r))"
    using approx_steps_fl64 [OF approx_steps_mult [OF c1, of "of_nat r"] _ ] nz(1) by (simp add: numeral_2_eq_2)
  have p2: "approx_steps 2 ?B (fl64 (fl64 (587 / 1000) * of_nat g))"
    using approx_steps_fl64 [OF approx_steps_mult [OF c2, of "of_nat g"] _ ] nz(2) by (simp add: numeral_2_eq_2)
  have p3: "approx_steps 2 ?C (fl64 (fl64 (114 / 1000) * of_nat b))"
    using approx_steps_fl64 [OF approx_steps_mult [OF c3, of "of_nat b"] _ ] nz(3) by (simp add: numeral_2_eq_2)
  have nz12: "?A + ?B = 0 \<or> 57 / 500 \<le> ?A + ?B"
    using nz(1,2) pos by linarith
  have s1: "approx_steps 3 (?A + ?B)
      (fl64 (fl64 (fl64 (299 / 1000) * of_nat r) + fl64 (fl64 (587 / 1000) * of_nat g)))"
    using approx_steps_fl64 [OF approx_steps_add [OF p1 p2 pos(2)] nz12] by (simp add: numeral_3_eq_3)
  have nz123: "?A + ?B + ?C = 0 \<or> 57 / 500 \<le> ?A + ?B + ?C"
    using nz pos by linarith
  have "approx_steps 3 (?A + ?B + ?C)
      (fl64 (fl64 (fl64 (299 / 1000) * of_nat r) + fl64 (fl64 (587 / 1000) * of_nat g))
         + fl64 (fl64 (114 / 1000) * of_nat b))"
    using approx_steps_add [OF s1 p3 pos(3)] by simp
  from approx_steps_fl64 [OF this nz123] show ?thesis
    by (simp add: gray_def luma_def eval_nat_numeral)
qed

lemma gray_agrees_off_boundary:
  assumes "luma r g b \<noteq> 128"
  shows "gray r g b < 128 \<longleftrightarrow> luma r g b < 128"
proof -
  define N where "N = 299 * r + 587 * g + 114 * b"
  have L: "luma r g b = of_nat N / 1000"
    by (simp add: luma_def N_def add_divide_distrib)
  have w: "luma r g b * (1 - ulp_rel) ^ 4 \<le> gray r g b"
    "gray r g b \<le> luma r g b * (1 + ulp_rel) ^ 4"
    using approx_steps_gray [of r g b] by (simp_all add: approx_steps_def)
  have N: "N \<noteq> 128000" using assms L by auto
  show ?thesis
  proof (cases "N < 128000")
    case True
    then have "N \<le> 127999" by simp
    then have "(of_nat N :: rat) \<le> 127999" by (metis of_nat_le_iff of_nat_numeral)
    then have l: "luma r g b \<le> 127999 / 1000" by (simp add: L)
    have "luma r g b * (1 + ulp_rel) ^ 4 \<le> 127999 / 1000 * (1 + ulp_rel) ^ 4"
      using l ulp_rel_bounds by (intro mult_right_mono) simp_all
    also have "\<dots> < 128" by (simp add: ulp_rel_def power_divide)
    finally have "gray r g b < 128" using w(2) by simp
    moreover have "luma r g b < 128" using l by simp
    ultimately show ?thesis by simp
  next
    case False
    then have "128001 \<le> N" using N by simp
    then have "(128001 :: rat) \<le> of_nat N" by (metis of_nat_le_iff of_nat_numeral)
    then have l: "128001 / 1000 \<le> luma r g b" by (simp add: L)
    have "(128 :: rat) \<le> 128001 / 1000 * (1 - ulp_rel) ^ 4"
      by (simp add: ulp_rel_def power_divide)
    also have "\<dots> \<le> luma r g b * (1 - ulp_rel) ^ 4"
      using l ulp_rel_bounds by (intro mult_right_mono) simp_all
    finally have "\<not> gray r g b < 128" using w(1) by simp
    moreover have "\<not> luma r g b < 128" using l by simp
    ultimately show ?thesis by simp
  qed
qed

lemma replicate_numeral_unfold:
  "replicate (numeral k) x = x # replicate (pred_numeral k) x"
  by (simp add: numeral_eq_Suc)

lemma upt_0_8: "[0..<8] = [0, 1, 2, 3, 4, 5, 6, 7]"
  by code_simp

lemma monochrome_black: "monochrome 8 (Suc 0) (replicate 32 0) = [255]"
  by (simp add: monochrome_def scanRow_def plot_def inkAt_def gray_black widthBytesOf_def
      upt_0_8 Let_def)

lemma gray_white: "\<not> gray 255 255 255 < 128"
  using gray_agrees_off_boundary [of 255 255 255] by (simp add: luma_def)

lemma upt_0_24:
  "[0..<24] = [0, 1, 2, 3, 4, 5, 6, 7, 8, 9, 10, 11, 12, 13, 14, 15, 16, 17, 18, 19, 20, 21, 22, 23]"
  by code_simp

lemma monochrome_feedPattern: "monochrome 24 (Suc 0) (pixelsOf feedPattern) = [0x1B, 0x64, 0]"
  by (simp add: monochrome_def scanRow_def plot_def inkAt_def gray_black gray_white widthBytesOf_def
      upt_0_24 Let_def pixelsOf_def feedPattern_def replicate_numeral_unfold)

text \<open>C4 (as amended). For every pixel \<open>(x, y)\<close> of a \<open>w\<close> by \<open>h\<close> capture, bit
  \<open>7 - x mod 8\<close> of byte \<open>y * ceil(w/8) + floor(x/8)\<close> of the bitmap is 1 exactly when the
  double-precision value of \<^verbatim>\<open>0.299 * r + 0.587 * g + 0.114 * b\<close> (each product and sum
  rounded to the nearest double) is below 128, and 0 otherwise. For every pixel whose exact
  luma is not 128 this is: exactly when the luma is below 128.\<close>

theorem pixel_bit:
  assumes "x < w" "y < h" "length pixels = 4 * w * h"
  shows "(bit (monochromeData (toMonochrome png w h pixels) ! (y * widthBytesOf w + x div 8))
              (7 - x mod 8)
          \<longleftrightarrow> gray (unat (pixels ! ((y * w + x) * 4)))
                   (unat (pixels ! ((y * w + x) * 4 + 1)))
                   (unat (pixels ! ((y * w + x) * 4 + 2))) < 128)
       \<and> (luma (unat (pixels ! ((y * w + x) * 4)))
                (unat (pixels ! ((y * w + x) * 4 + 1)))
                (unat (pixels ! ((y * w + x) * 4 + 2))) \<noteq> 128 \<longrightarrow>
            (bit (monochromeData (toMonochrome png w h pixels) ! (y * widthBytesOf w + x div 8))
                 (7 - x mod 8)
             \<longleftrightarrow> luma (unat (pixels ! ((y * w + x) * 4)))
                      (unat (pixels ! ((y * w + x) * 4 + 1)))
                      (unat (pixels ! ((y * w + x) * 4 + 2))) < 128))"
proof -
  have "y * w + x < w * h"
  proof -
    have "y * w + x < y * w + w" using assms(1) by simp
    also have "\<dots> = w * Suc y" by simp
    also have "\<dots> \<le> w * h" using assms(2) by (intro mult_le_mono2) simp
    finally show ?thesis .
  qed
  then have "(y * w + x) * 4 + 2 < length pixels"
    using assms(3) by simp
  then have "bit (monochromeData (toMonochrome png w h pixels) ! (y * widthBytesOf w + x div 8))
              (7 - x mod 8)
          \<longleftrightarrow> gray (unat (pixels ! ((y * w + x) * 4)))
                   (unat (pixels ! ((y * w + x) * 4 + 1)))
                   (unat (pixels ! ((y * w + x) * 4 + 2))) < 128"
    using bit_monochrome [OF assms(1,2), of pixels]
    by (simp add: toMonochrome_def inkAt_def)
  then show ?thesis
    using gray_agrees_off_boundary by blast
qed

theorem pixel_bit_witness:
  "bit (monochromeData (toMonochrome [] 9 2 (replicate 72 0)) ! 3) 7
   \<and> luma 0 0 0 \<noteq> 128"
  using pixel_bit [of 8 9 1 2 "replicate 72 0" "[]"]
  by (simp add: widthBytesOf_def gray_black luma_def)

text \<open>The claim as stated compares the exact luma with 128. A mid-gray pixel
  \<open>(128, 128, 128)\<close> has luma exactly 128, which is not below 128, and the code sets its
  bit: the double-precision sum is \<open>128 - 2^-46\<close>.\<close>

theorem pixel_bit_counterexample:
  "bit (monochromeData (toMonochrome [] 1 1 [128, 128, 128, 255]) ! (0 * widthBytesOf 1 + 0 div 8))
       (7 - 0 mod 8)
   \<and> \<not> luma 128 128 128 < 128"
proof -
  have "gray 128 128 128 < 128" by (simp add: gray_mid)
  then have "inkAt [128, 128, 128, 255] ((0 * 1 + 0) * 4)"
    by (simp add: inkAt_def)
  then show ?thesis
    using bit_monochrome [of 0 1 0 1 "[128, 128, 128, 255]"]
    by (simp add: toMonochrome_def luma_def)
qed

subsection \<open>Objects\<close>

lemma map_of_insertIndex:
  "k \<notin> set (map fst obj) \<Longrightarrow>
     map_of (insertIndex n (k, v) obj) k' = (if k' = k then Some v else map_of obj k')"
  by (induction obj) (auto split: option.splits)

lemma map_of_replace:
  "map_of (map (\<lambda>(k', v'). if k' = k then (k', v) else (k', v')) obj) k'
     = (if k' = k then (if k \<in> fst ` set obj then Some v else None) else map_of obj k')"
  by (induction obj) (auto simp add: rev_image_eqI)

lemma map_of_setProperty:
  "map_of (setProperty obj k v) k' = (if k' = k then Some v else map_of obj k')"
proof (cases "k \<in> set (map fst obj)")
  case True
  then show ?thesis
    by (simp add: setProperty_def map_of_replace)
next
  case False
  then have "map_of obj k = None"
    by (simp add: map_of_eq_None_iff)
  then show ?thesis
    using False map_of_insertIndex [OF False, of _ v k']
    by (auto simp add: setProperty_def map_add_def split: option.splits)
qed

lemma map_of_foldl_setProperty:
  "distinct (map fst source) \<Longrightarrow>
     map_of (foldl (\<lambda>obj (k, v). setProperty obj k v) target source) k
       = (case map_of source k of Some v \<Rightarrow> Some v | None \<Rightarrow> map_of target k)"
proof (induction source arbitrary: target)
  case Nil
  then show ?case by simp
next
  case (Cons p source)
  obtain k' v' where p: "p = (k', v')" by (cases p)
  have d: "distinct (map fst source)" and n: "k' \<notin> fst ` set source"
    using Cons.prems p by auto
  have "map_of source k' = None"
    using n by (simp add: map_of_eq_None_iff)
  then show ?case
    using Cons.IH [OF d, of "setProperty target k' v'"] p
    by (auto simp add: map_of_setProperty split: option.splits)
qed

lemma map_of_spread:
  "distinct (map fst source) \<Longrightarrow>
     map_of (spread target source) k
       = (case map_of source k of Some v \<Rightarrow> Some v | None \<Rightarrow> map_of target k)"
  by (simp add: spread_def map_of_foldl_setProperty)

subsection \<open>Configuration\<close>

text \<open>With a width of zero or less the word wrap of a name that is not empty pushes an
  empty line and keeps the name as it is: the loop never ends.\<close>

lemma wrapName_step:
  assumes "itemWidth \<le> 0" "tempName \<noteq> []"
  shows "wrapName itemWidth tempName nameLines = wrapName itemWidth tempName (nameLines @ [[]])"
proof -
  have "int (length tempName) > itemWidth" using assms by (cases tempName) auto
  moreover have "nat itemWidth = 0" using assms by simp
  ultimately show ?thesis
    by (subst wrapName.simps) simp
qed

lemma wrapName_stuck:
  assumes "wrapName itemWidth tempName nameLines = Some r"
  shows "\<not> (itemWidth \<le> 0 \<and> tempName \<noteq> [])"
  apply (rule wrapName.raw_induct [where P = "\<lambda>w t ls r. \<not> (w \<le> 0 \<and> t \<noteq> [])", OF _ assms])
  subgoal premises prems for loop w t ls r
  proof
    assume a: "w \<le> 0 \<and> t \<noteq> []"
    then have "int (length t) > w" by (cases t) auto
    moreover have "nat w = 0" using a by simp
    ultimately have "loop w t (ls @ [[]]) = Some r" using prems(2) by simp
    then show False using prems(1) a by blast
  qed
  done

lemma wrapName_zero_never_returns:
  assumes "tempName \<noteq> []" "itemWidth \<le> 0"
  shows "wrapName itemWidth tempName nameLines = None"
proof (cases "wrapName itemWidth tempName nameLines")
  case (Some r)
  then show ?thesis using wrapName_stuck [OF Some] assms by simp
qed simp

lemma trim_Tea: "trim ''Tea'' = ''Tea''"
  by code_simp

text \<open>C8, at the failing input. The formatter of \<^verbatim>\<open>part_000\<close> built with
  \<^verbatim>\<open>{charsPerLine: 0}\<close> raises nothing: the constructor keeps the zero (the spread of the
  caller's object undoes the default 32), \<^verbatim>\<open>updateConfig\<close> keeps it, \<^verbatim>\<open>divider\<close> returns
  the empty line, and the word wrap of the item name \<^verbatim>\<open>Tea\<close> in \<^verbatim>\<open>formatBillContent\<close> never
  returns.\<close>

theorem zero_charsPerLine_raises_nothing:
  "map_of (config (newFormatter_part0 [(''charsPerLine'', 0)])) ''charsPerLine'' = Some 0
   \<and> map_of (config (updateConfig (newFormatter_part0 []) [(''charsPerLine'', 0)])) ''charsPerLine''
       = Some 0
   \<and> divider maxLength (newFormatter_part0 [(''charsPerLine'', 0)]) = Inr []
   \<and> nameLinesOf (newFormatter_part0 [(''charsPerLine'', 0)]) ''Tea'' = None"
proof -
  have c: "map_of (config (newFormatter_part0 [(''charsPerLine'', 0)])) ''charsPerLine'' = Some 0"
    by (simp add: newFormatter_part0_def map_of_spread)
  have u: "map_of (config (updateConfig (newFormatter_part0 []) [(''charsPerLine'', 0)]))
             ''charsPerLine'' = Some 0"
    by (simp add: updateConfig_def map_of_spread)
  have d: "divider maxLength (newFormatter_part0 [(''charsPerLine'', 0)]) = Inr []"
    using c by (simp add: divider_def)
  have "wrapName (itemWidthOf 0) ''Tea'' [] = None"
    by (rule wrapName_zero_never_returns) (simp_all add: itemWidthOf_def)
  then have n: "nameLinesOf (newFormatter_part0 [(''charsPerLine'', 0)]) ''Tea'' = None"
    using c by (simp add: nameLinesOf_def trim_Tea)
  show ?thesis
    using c u d n by (intro conjI)
qed

subsection \<open>Content cache\<close>

lemma outcome_renderAndStore:
  "snd (snd (renderAndStore e later useCache f d hash content typ))
     = bindE (formatToHTML e (config f) content typ) (convertHTMLToImageNode e (config f))"
  by (simp add: renderAndStore_def bindE_def split: sum.splits)

lemma outcome_printContentAsImage:
  "snd (snd (snd (printContentAsImage e now later f d content typ opts)))
     = rethrow (bindE (snd (snd (obtainImage e now later opts
          (case cacheConfigPatch opts of
             Some p \<Rightarrow> updateCacheConfig (case printerConfig opts of Some pc \<Rightarrow> updateConfig f pc | None \<Rightarrow> f) p
           | None \<Rightarrow> (case printerConfig opts of Some pc \<Rightarrow> updateConfig f pc | None \<Rightarrow> f))
          d
          (generateContentHash (sha256 e)
             (config (case cacheConfigPatch opts of
                Some p \<Rightarrow> updateCacheConfig (case printerConfig opts of Some pc \<Rightarrow> updateConfig f pc | None \<Rightarrow> f) p
              | None \<Rightarrow> (case printerConfig opts of Some pc \<Rightarrow> updateConfig f pc | None \<Rightarrow> f)))
             (JObj (setProperty content ''_printMethod'' (JStr ''html-image''))) typ)
          (setProperty content ''_printMethod'' (JStr ''html-image'')) typ)))
        formatImageForPrinter)"
  by (simp add: printContentAsImage_def Let_def split: prod.splits)

lemma obtainImage_expired:
  assumes "d (cachePath hash) = Some (Entry timestamp a)"
    and "now - timestamp > maxAge (cacheConfig f)" "enabled (cacheConfig f)"
    and "persistToDisk (cacheConfig f)" "imageCache f hash = None" "\<not> skipCache opts"
  shows "obtainImage e now later opts f d hash content typ
       = renderAndStore e later True f (d(cachePath hash := None)) hash content typ"
  using assms
  by (simp add: obtainImage_def lookupCache_def loadCacheFromDisk_def Let_def)

text \<open>C3. A durable entry older than \<^verbatim>\<open>maxAge\<close> (24 hours unless overridden) when it is
  read is unlinked by \<^verbatim>\<open>loadCacheFromDisk\<close>, which returns \<^verbatim>\<open>null\<close>; an entry at or
  under \<^verbatim>\<open>maxAge\<close> is returned and the disk is left as it is. In
  \<^verbatim>\<open>printContentAsImage\<close>, with the cache in use and no entry in memory, an expired entry
  under the content's hash makes the call render the content afresh: its outcome is that
  of the HTML template, the conversion and \<^verbatim>\<open>formatImageForPrinter\<close>.\<close>

theorem expired_entry_is_a_miss:
  assumes "d (cachePath hash) = Some (Entry timestamp a)"
  shows "(now - timestamp > maxAge cc \<longrightarrow>
            loadCacheFromDisk cc now d hash = (d(cachePath hash := None), None))
       \<and> (now - timestamp \<le> maxAge cc \<longrightarrow> loadCacheFromDisk cc now d hash = (d, Some a))
       \<and> maxAge (cacheConfig (newFormatter cfg)) = 24 * 60 * 60 * 1000
       \<and> (now - timestamp > maxAge (cacheConfig f) \<and> enabled (cacheConfig f)
            \<and> persistToDisk (cacheConfig f) \<and> imageCache f hash = None
            \<and> hash = generateContentHash (sha256 e) (config f)
                       (JObj (setProperty content ''_printMethod'' (JStr ''html-image''))) kind \<longrightarrow>
            snd (snd (snd (printContentAsImage e now later f d content kind noOptions)))
              = rethrow (bindE (bindE (formatToHTML e (config f)
                                          (setProperty content ''_printMethod'' (JStr ''html-image'')) kind)
                                      (convertHTMLToImageNode e (config f)))
                               formatImageForPrinter))"
proof (intro conjI impI)
  show "loadCacheFromDisk cc now d hash = (d(cachePath hash := None), None)"
    if "now - timestamp > maxAge cc"
    using assms that by (simp add: loadCacheFromDisk_def)
  show "loadCacheFromDisk cc now d hash = (d, Some a)" if "now - timestamp \<le> maxAge cc"
    using assms that by (simp add: loadCacheFromDisk_def)
  show "maxAge (cacheConfig (newFormatter cfg)) = 24 * 60 * 60 * 1000"
    by (simp add: newFormatter_def defaultCacheConfig_def)
  show "snd (snd (snd (printContentAsImage e now later f d content kind noOptions)))
              = rethrow (bindE (bindE (formatToHTML e (config f)
                                          (setProperty content ''_printMethod'' (JStr ''html-image'')) kind)
                                      (convertHTMLToImageNode e (config f)))
                               formatImageForPrinter)"
    if c: "now - timestamp > maxAge (cacheConfig f) \<and> enabled (cacheConfig f)
            \<and> persistToDisk (cacheConfig f) \<and> imageCache f hash = None
            \<and> hash = generateContentHash (sha256 e) (config f)
                       (JObj (setProperty content ''_printMethod'' (JStr ''html-image''))) kind"
  proof -
    let ?c = "setProperty content ''_printMethod'' (JStr ''html-image'')"
    have eq: "hash = generateContentHash (sha256 e) (config f) (JObj ?c) kind"
      and c1: "now - timestamp > maxAge (cacheConfig f)" and c2: "enabled (cacheConfig f)"
      and c3: "persistToDisk (cacheConfig f)" and c4: "imageCache f hash = None"
      using c by blast+
    have c5: "\<not> skipCache noOptions" by (simp add: noOptions_def)
    have o: "obtainImage e now later noOptions f d hash ?c kind
        = renderAndStore e later True f (d(cachePath hash := None)) hash ?c kind"
      by (rule obtainImage_expired
            [where d = d and hash = hash and opts = noOptions, OF assms c1 c2 c3 c4 c5])
    have "snd (snd (snd (printContentAsImage e now later f d content kind noOptions)))
        = rethrow (bindE (snd (snd (obtainImage e now later noOptions f d hash ?c kind)))
                     formatImageForPrinter)"
      unfolding outcome_printContentAsImage by (simp add: noOptions_def eq)
    then show ?thesis
      by (simp add: o outcome_renderAndStore)
  qed
qed

lemma toLowerCase_kot: "toLowerCase ''kot'' = ''kot''"
  by code_simp

lemma fresh_render_sample:
  "rethrow (bindE (bindE (formatToHTML sampleEnv cfg content ''kot'')
                         (convertHTMLToImageNode sampleEnv cfg))
                  formatImageForPrinter)
     = Inr [0x1D, 0x76, 0x30, 0x00, 1, 0, 1, 0, 255]"
  by (simp add: formatToHTML_def convertHTMLToImageNode_def sampleEnv_def bindE_def rethrow_def
      toMonochrome_def formatImageForPrinter_eq toLowerCase_kot widthBytesOf_def monochrome_black)

theorem expired_entry_is_a_miss_witness:
  "loadCacheFromDisk defaultCacheConfig 86400001
       [cachePath ''k'' \<mapsto> Entry 0 \<lparr>imageData = [], width = 8, height = 1, monochromeData = [0]\<rparr>] ''k''
     = (Map.empty, None)
   \<and> loadCacheFromDisk defaultCacheConfig 86400000
       [cachePath ''k'' \<mapsto> Entry 0 \<lparr>imageData = [], width = 8, height = 1, monochromeData = [0]\<rparr>] ''k''
     = ([cachePath ''k'' \<mapsto> Entry 0 \<lparr>imageData = [], width = 8, height = 1, monochromeData = [0]\<rparr>],
        Some \<lparr>imageData = [], width = 8, height = 1, monochromeData = [0]\<rparr>)
   \<and> snd (snd (snd (printContentAsImage sampleEnv 86400001 86400002 (newFormatter [])
          [cachePath (generateContentHash (sha256 sampleEnv) (config (newFormatter []))
                        (JObj (setProperty [] ''_printMethod'' (JStr ''html-image''))) ''kot'')
             \<mapsto> Entry 0 \<lparr>imageData = [], width = 8, height = 1, monochromeData = [0]\<rparr>]
          [] ''kot'' noOptions)))
     = Inr [0x1D, 0x76, 0x30, 0x00, 1, 0, 1, 0, 255]"
proof -
  let ?a = "\<lparr>imageData = [], width = 8, height = 1, monochromeData = [0]\<rparr>"
  let ?h = "generateContentHash (sha256 sampleEnv) (config (newFormatter []))
              (JObj (setProperty [] ''_printMethod'' (JStr ''html-image''))) ''kot''"
  have a: "loadCacheFromDisk defaultCacheConfig 86400001 [cachePath ''k'' \<mapsto> Entry 0 ?a] ''k''
      = (Map.empty, None)"
    using expired_entry_is_a_miss
          [where d = "[cachePath ''k'' \<mapsto> Entry 0 ?a]" and hash = "''k''" and timestamp = 0
             and a = ?a and now = 86400001 and cc = defaultCacheConfig]
    by (simp add: defaultCacheConfig_def)
  have b: "loadCacheFromDisk defaultCacheConfig 86400000 [cachePath ''k'' \<mapsto> Entry 0 ?a] ''k''
      = ([cachePath ''k'' \<mapsto> Entry 0 ?a], Some ?a)"
    using expired_entry_is_a_miss
          [where d = "[cachePath ''k'' \<mapsto> Entry 0 ?a]" and hash = "''k''" and timestamp = 0
             and a = ?a and now = 86400000 and cc = defaultCacheConfig]
    by (simp add: defaultCacheConfig_def)
  have c: "snd (snd (snd (printContentAsImage sampleEnv 86400001 86400002 (newFormatter [])
          [cachePath ?h \<mapsto> Entry 0 ?a] [] ''kot'' noOptions)))
     = Inr [0x1D, 0x76, 0x30, 0x00, 1, 0, 1, 0, 255]"
    using expired_entry_is_a_miss
          [where d = "[cachePath ?h \<mapsto> Entry 0 ?a]" and hash = ?h and timestamp = 0
             and a = ?a and now = 86400001 and f = "newFormatter []" and e = sampleEnv
             and content = "[]" and kind = "''kot''" and later = 86400002]
    by (simp add: newFormatter_def defaultCacheConfig_def fresh_render_sample)
  show ?thesis
    using a b c by (intro conjI)
qed

subsection \<open>Frame of the entry points\<close>

lemma content_printContentAsImage:
  "fst (snd (snd (printContentAsImage e now later f d content typ opts)))
     = setProperty content ''_printMethod'' (JStr ''html-image'')"
  by (simp add: printContentAsImage_def Let_def split: prod.splits)

lemma content_printContent:
  "fst (snd (snd (printContent e now later f d content typ opts)))
     = setProperty content ''_printMethod''
         (JStr (case printMethod opts of None \<Rightarrow> ''text'' | Some m \<Rightarrow> if m = [] then ''text'' else m))"
  by (simp add: printContent_def Let_def split: prod.splits)

lemma keys_setProperty:
  "fst ` set (setProperty obj k v) = insert k (fst ` set obj)"
proof -
  have "dom (map_of (setProperty obj k v)) = insert k (dom (map_of obj))"
    by (auto simp add: map_of_setProperty dom_def)
  then show ?thesis by (simp add: dom_map_of_conv_image_fst)
qed

text \<open>C9 (as amended). \<^verbatim>\<open>printContentAsImage\<close> and \<^verbatim>\<open>printContent\<close> change the content
  object in exactly one place: they assign its top-level property \<^verbatim>\<open>_printMethod\<close>
  (\<^verbatim>\<open>"html-image"\<close>, respectively the print method in use). Every other property keeps
  its value, at every depth, and no other property is added or removed.\<close>

theorem content_only_marked:
  "(\<forall>k. k \<noteq> ''_printMethod'' \<longrightarrow>
        map_of (fst (snd (snd (printContentAsImage e now later f d content typ opts)))) k
          = map_of content k)
   \<and> map_of (fst (snd (snd (printContentAsImage e now later f d content typ opts)))) ''_printMethod''
       = Some (JStr ''html-image'')
   \<and> set (map fst (fst (snd (snd (printContentAsImage e now later f d content typ opts)))))
       = insert ''_printMethod'' (set (map fst content))
   \<and> (\<forall>k. k \<noteq> ''_printMethod'' \<longrightarrow>
        map_of (fst (snd (snd (printContent e now later f d content typ opts)))) k
          = map_of content k)
   \<and> map_of (fst (snd (snd (printContent e now later f d content typ opts)))) ''_printMethod''
       = Some (JStr (case printMethod opts of None \<Rightarrow> ''text'' | Some m \<Rightarrow> if m = [] then ''text'' else m))
   \<and> set (map fst (fst (snd (snd (printContent e now later f d content typ opts)))))
       = insert ''_printMethod'' (set (map fst content))"
  unfolding content_printContentAsImage content_printContent
  by (simp add: map_of_setProperty keys_setProperty)

theorem content_only_marked_witness:
  "map_of (fst (snd (snd (printContentAsImage sampleEnv 0 0 (newFormatter []) Map.empty
                            [(''items'', JArr [])] ''kot'' noOptions)))) ''items''
     = Some (JArr [])
   \<and> map_of (fst (snd (snd (printContent sampleEnv 0 0 (newFormatter_part0 []) Map.empty
                            [(''items'', JArr [])] ''kot'' noOptions)))) ''items''
     = Some (JArr [])
   \<and> map_of (fst (snd (snd (printContent sampleEnv 0 0 (newFormatter_part0 []) Map.empty
                            [(''items'', JArr [])] ''kot'' noOptions)))) ''_printMethod''
     = Some (JStr ''text'')"
  using content_only_marked [of sampleEnv 0 0 "newFormatter []" Map.empty "[(''items'', JArr [])]"
      "''kot''" noOptions]
    content_only_marked [of sampleEnv 0 0 "newFormatter_part0 []" Map.empty "[(''items'', JArr [])]"
      "''kot''" noOptions]
  by (simp add: noOptions_def)

lemma setProperty_items:
  "setProperty [(''items'', JArr [])] ''_printMethod'' (JStr ''html-image'')
     = [(''items'', JArr []), (''_printMethod'', JStr ''html-image'')]"
  by code_simp

text \<open>The claim as stated fails: after \<^verbatim>\<open>printContentAsImage\<close> the content object
  \<^verbatim>\<open>{items: []}\<close> has the additional property \<^verbatim>\<open>_printMethod\<close>.\<close>

theorem content_only_marked_counterexample:
  "fst (snd (snd (printContentAsImage sampleEnv 0 0 (newFormatter []) Map.empty
                    [(''items'', JArr [])] ''kot'' noOptions)))
     = [(''items'', JArr []), (''_printMethod'', JStr ''html-image'')]
   \<and> fst (snd (snd (printContentAsImage sampleEnv 0 0 (newFormatter []) Map.empty
                    [(''items'', JArr [])] ''kot'' noOptions)))
     \<noteq> [(''items'', JArr [])]"
  by (simp add: content_printContentAsImage setProperty_items)

subsection \<open>Paper cut\<close>

lemma toBinary_append: "toBinary (xs @ ys) = toBinary xs @ toBinary ys"
  by (simp add: toBinary_def)

lemma toBinary_id: "\<forall>c\<in>set xs. c < 256 \<Longrightarrow> toBinary xs = xs"
  by (induction xs) (simp_all add: toBinary_def)

lemma occurrences_append_ge: "occurrences p ys \<le> occurrences p (xs @ ys)"
  by (induction xs) simp_all

lemma stringIncludes_append: "stringIncludes ys p \<Longrightarrow> stringIncludes (xs @ ys) p"
  by (induction xs) simp_all

lemma occurrences_cut_appended:
  assumes "\<not> stringIncludes xs [0x1D, 0x56 :: nat]"
  shows "occurrences [0x1D, 0x56] (xs @ [0x1D, 0x56, 0x41, 0x10]) = 1"
  using assms
proof (induction xs)
  case Nil
  then show ?case by simp
next
  case (Cons x xs)
  have "take 2 (x # xs @ [0x1D, 0x56, 0x41, 0x10]) \<noteq> [0x1D, 0x56 :: nat]"
  proof (cases xs)
    case Nil
    then show ?thesis by simp
  next
    case (Cons y ys)
    then show ?thesis using Cons.prems by auto
  qed
  then show ?case using Cons by simp
qed

lemma hasCutCommand_addCuttingCommands: "hasCutCommand (addCuttingCommands content)"
proof -
  have "stringIncludes ([0x1B, 0x64, 0x03, 0x07, 0x07, 0x1D, 0x56, 0x00 :: nat]) [0x1B, 0x64]"
    by simp
  then have "stringIncludes (content @ [0x1B, 0x64, 0x03, 0x07, 0x07, 0x1D, 0x56, 0x00]) [0x1B, 0x64]"
    by (rule stringIncludes_append)
  then show ?thesis
    by (simp add: hasCutCommand_def addCuttingCommands_def)
qed

lemma hasCutCommand_imageJob: "hasCutCommand (imageJob cmd)"
proof -
  have "stringIncludes ([0x1D, 0x56, 0x00, 0x1D, 0x56, 0x41, 0x03 :: nat]) [0x1D, 0x56]"
    by simp
  then have "stringIncludes (([0x1B, 0x40] @ cmd @ [0x1B, 0x64, 0x08, 0x07, 0x07, 0x1B, 0x42, 0x03, 0x03, 0x01])
                @ [0x1D, 0x56, 0x00, 0x1D, 0x56, 0x41, 0x03]) [0x1D, 0x56]"
    by (rule stringIncludes_append)
  then show ?thesis
    by (simp add: hasCutCommand_def imageJob_def)
qed

lemma cutCount_imageJob: "2 \<le> cutCount (finalBuffer (imageJob cmd))"
proof -
  have "finalBuffer (imageJob cmd)
      = (toBinary ([0x1B, 0x40] @ cmd @ [0x1B, 0x64, 0x08, 0x07, 0x07, 0x1B, 0x42, 0x03, 0x03, 0x01]))
          @ [0x1D, 0x56, 0x00, 0x1D, 0x56, 0x41, 0x03]"
    using hasCutCommand_imageJob [of cmd]
    by (simp add: finalBuffer_def imageJob_def toBinary_def)
  moreover have "occurrences [0x1D, 0x56] [0x1D, 0x56, 0x00, 0x1D, 0x56, 0x41, 0x03 :: nat] = 2"
    by simp
  ultimately show ?thesis
    using occurrences_append_ge
      [of "[0x1D, 0x56]" "[0x1D, 0x56, 0x00, 0x1D, 0x56, 0x41, 0x03]"
          "toBinary ([0x1B, 0x40] @ cmd @ [0x1B, 0x64, 0x08, 0x07, 0x07, 0x1B, 0x42, 0x03, 0x03, 0x01])"]
    by (simp add: cutCount_def)
qed

text \<open>What the first failing input stands for: an image whose bitmap holds the bytes
  \<open>1B 64\<close> side by side, wherever they lie, is delivered with nothing appended.\<close>

lemma payload_pattern_suppresses_cut:
  assumes "formatImageForPrinter a = Inr cmd"
    and "stringIncludes (map unat (monochromeData a)) [0x1B, 0x64]"
  shows "finalBuffer cmd = toBinary cmd"
proof -
  have c: "cmd = [0x1D, 0x76, 0x30, 0x00,
                 widthBytesOf (width a) mod 256, widthBytesOf (width a) div 256 mod 256,
                 height a mod 256, height a div 256 mod 256]
                @ map unat (monochromeData a)"
    using assms(1) by (simp add: formatImageForPrinter_eq split: if_splits)
  have "stringIncludes cmd [0x1B, 0x64]"
    unfolding c by (rule stringIncludes_append [OF assms(2)])
  then show ?thesis
    by (simp add: finalBuffer_def hasCutCommand_def)
qed

lemma showNat_examples: "showNat 2 = ''2''" "showNat 10 = ''10''" "showNat 20 = ''20''"
  by (simp_all add: showNat.simps digitChar_def)

text \<open>C1, at the failing inputs. A ticket of \<^verbatim>\<open>src/print-formatter.js\<close> whose capture is
  24 by 1 pixels with the bitmap \<open>1B 64 00\<close>: the image command holds the pattern
  \<^verbatim>\<open>ESC d\<close> in its payload, the scan of the delivery step takes it for a cut command and
  appends none, and the bytes handed to the printer hold no cut command at all. And a
  ticket on the image path of \<^verbatim>\<open>part_000\<close> (a capture of 8 by 1 black pixels): the job ends
  with the two cut commands \<^verbatim>\<open>GS V 0\<close> and \<^verbatim>\<open>GS V A 3\<close>, and is delivered as it is.\<close>

theorem image_job_cut_commands:
  "snd (snd (snd (printContentAsImage feedPatternEnv 0 0 (newFormatter []) Map.empty
                     [] ''kot'' noOptions)))
     = Inr [0x1D, 0x76, 0x30, 0x00, 3, 0, 1, 0, 0x1B, 0x64, 0]
   \<and> hasCutCommand [0x1D, 0x76, 0x30, 0x00, 3, 0, 1, 0, 0x1B, 0x64, 0]
   \<and> finalBuffer [0x1D, 0x76, 0x30, 0x00, 3, 0, 1, 0, 0x1B, 0x64, 0]
     = [0x1D, 0x76, 0x30, 0x00, 3, 0, 1, 0, 0x1B, 0x64, 0]
   \<and> cutCount [0x1D, 0x76, 0x30, 0x00, 3, 0, 1, 0, 0x1B, 0x64, 0] = 0
   \<and> snd (snd (printContentAsImage_part0 sampleEnv 0 0 (newFormatter_part0 []) Map.empty
               [] ''kot'' noOptions))
     = Inr [0x1B, 0x40, 0x1D, 0x76, 0x30, 0x00, 1, 0, 1, 0, 255, 0x1B, 0x64, 0x08, 0x07, 0x07,
            0x1B, 0x42, 0x03, 0x03, 0x01, 0x1D, 0x56, 0x00, 0x1D, 0x56, 0x41, 0x03]
   \<and> finalBuffer [0x1B, 0x40, 0x1D, 0x76, 0x30, 0x00, 1, 0, 1, 0, 255, 0x1B, 0x64, 0x08, 0x07, 0x07,
            0x1B, 0x42, 0x03, 0x03, 0x01, 0x1D, 0x56, 0x00, 0x1D, 0x56, 0x41, 0x03]
     = [0x1B, 0x40, 0x1D, 0x76, 0x30, 0x00, 1, 0, 1, 0, 255, 0x1B, 0x64, 0x08, 0x07, 0x07,
            0x1B, 0x42, 0x03, 0x03, 0x01, 0x1D, 0x56, 0x00, 0x1D, 0x56, 0x41, 0x03]
   \<and> cutCount [0x1B, 0x40, 0x1D, 0x76, 0x30, 0x00, 1, 0, 1, 0, 255, 0x1B, 0x64, 0x08, 0x07, 0x07,
            0x1B, 0x42, 0x03, 0x03, 0x01, 0x1D, 0x56, 0x00, 0x1D, 0x56, 0x41, 0x03] = 2"
proof -
  have a: "snd (snd (snd (printContentAsImage feedPatternEnv 0 0 (newFormatter []) Map.empty
                     [] ''kot'' noOptions)))
     = Inr [0x1D, 0x76, 0x30, 0x00, 3, 0, 1, 0, 0x1B, 0x64, 0]"
    by (simp add: printContentAsImage_def obtainImage_def lookupCache_def
        loadCacheFromDisk_def renderAndStore_def formatToHTML_def convertHTMLToImageNode_def
        feedPatternEnv_def sampleEnv_def newFormatter_def noOptions_def defaultCacheConfig_def
        bindE_def rethrow_def toMonochrome_def formatImageForPrinter_eq toLowerCase_kot
        widthBytesOf_def monochrome_feedPattern Let_def)
  have b: "snd (snd (printContentAsImage_part0 sampleEnv 0 0 (newFormatter_part0 []) Map.empty
                       [] ''kot'' noOptions))
      = Inr (imageJob [0x1D, 0x76, 0x30, 0x00, 1, 0, 1, 0, 255])"
    by (simp add: printContentAsImage_part0_def obtainImage_def lookupCache_def
        loadCacheFromDisk_def renderAndStore_def formatToHTML_def convertHTMLToImageNode_def
        sampleEnv_def newFormatter_part0_def noOptions_def defaultCacheConfig_def bindE_def
        rethrow_def toMonochrome_def formatImageForPrinter_eq toLowerCase_kot widthBytesOf_def
        monochrome_black Let_def)
  show ?thesis
    using a b
    by (simp add: imageJob_def finalBuffer_def hasCutCommand_def toBinary_def cutCount_def)
qed

subsection \<open>Cache key and key order\<close>

text \<open>\<^verbatim>\<open>sortObjectKeys\<close> is canonical: two values that differ in the order of their keys
  only are rebuilt to the same value, so \<^verbatim>\<open>generateContentHash\<close> of
  \<^verbatim>\<open>src/print-formatter.js\<close> digests the same text for both.\<close>

lemma rebuild_from_keys:
  "distinct (map fst A) \<Longrightarrow> map (\<lambda>k. (k, the (map_of A k))) (map fst A) = A"
proof (induction A)
  case Nil
  then show ?case by simp
next
  case (Cons a A)
  obtain k v where a: "a = (k, v)" by (cases a)
  let ?g = "\<lambda>k'. (k', the (map_of A k'))"
  let ?g' = "\<lambda>k'. (k', the (map_of (a # A) k'))"
  have "k \<notin> set (map fst A)" using Cons.prems a by simp
  then have step: "map ?g' (map fst A) = map ?g (map fst A)"
    unfolding a by (intro map_cong refl) auto
  have ih: "map ?g (map fst A) = A"
    using Cons by simp
  have "map ?g' (map fst (a # A)) = (k, v) # map ?g' (map fst A)"
    unfolding a by simp
  also have "\<dots> = (k, v) # map ?g (map fst A)"
    by (simp only: step)
  also have "\<dots> = a # A"
    by (simp only: ih a)
  finally show ?case .
qed

lemma keyed_lists_equal:
  assumes "map fst A = map fst B" "set A = set B" "distinct (map fst A)"
  shows "A = B"
proof -
  have dB: "distinct (map fst B)" using assms by simp
  then have mo: "map_of A = map_of B"
    using assms by (simp add: map_of_inject_set)
  have "A = map (\<lambda>k. (k, the (map_of A k))) (map fst A)"
    by (rule rebuild_from_keys [OF assms(3), symmetric])
  also have "\<dots> = map (\<lambda>k. (k, the (map_of B k))) (map fst B)"
    by (simp only: mo assms(1))
  also have "\<dots> = B"
    by (rule rebuild_from_keys [OF dB])
  finally show ?thesis .
qed

lemma sort_key_fst_unique:
  fixes A B :: "(string \<times> 'v) list"
  assumes "set A = set B" "distinct (map fst A)" "distinct (map fst B)"
  shows "sort_key fst A = sort_key fst B"
proof (rule keyed_lists_equal)
  have "set (map fst A) = set (map fst B)" using assms(1) by simp
  then have "set (map fst (sort_key fst A)) = set (map fst (sort_key fst B))"
    by simp
  moreover have "distinct (map fst (sort_key fst A))" "distinct (map fst (sort_key fst B))"
    using assms by (simp_all add: distinct_map)
  moreover have "sorted (map fst (sort_key fst A))" "sorted (map fst (sort_key fst B))"
    by simp_all
  ultimately show "map fst (sort_key fst A) = map fst (sort_key fst B)"
    by (intro sorted_distinct_set_unique)
  show "set (sort_key fst A) = set (sort_key fst B)" using assms(1) by simp
  show "distinct (map fst (sort_key fst A))" using assms(2) by (simp add: distinct_map)
qed

lemma sortObjectKeys_canonical:
  "sameUpToKeyOrder x y \<Longrightarrow> sortObjectKeys x = sortObjectKeys y"
proof (induction rule: sameUpToKeyOrder.induct)
  case (arr xs ys)
  then have "map sortObjectKeys xs = map sortObjectKeys ys"
    by (induction xs ys rule: list_all2_induct) simp_all
  then show ?case by simp
next
  case (obj xs ys)
  let ?f = "\<lambda>(k, v). (k, sortObjectKeys v)"
  have fst_f: "map fst (map ?f zs) = map fst zs" for zs :: "(string \<times> json) list"
    by (induction zs) auto
  have sub: "set (map ?f as) \<subseteq> set (map ?f bs)"
    if "set (map fst as) = set (map fst bs)"
      and "\<forall>p\<in>set as. \<forall>q\<in>set bs. fst p = fst q \<longrightarrow> sortObjectKeys (snd p) = sortObjectKeys (snd q)"
    for as bs :: "(string \<times> json) list"
  proof
    fix e assume "e \<in> set (map ?f as)"
    then obtain k v where kv: "(k, v) \<in> set as" "e = (k, sortObjectKeys v)" by auto
    then have "k \<in> set (map fst bs)" using that(1) by (metis fst_conv image_eqI set_map)
    then obtain v' where v': "(k, v') \<in> set bs" by auto
    then have "sortObjectKeys v = sortObjectKeys v'" using that(2) kv(1) by fastforce
    then show "e \<in> set (map ?f bs)" using v' kv(2) by force
  qed
  have "set (map ?f xs) = set (map ?f ys)"
  proof
    show "set (map ?f xs) \<subseteq> set (map ?f ys)"
      using obj by (intro sub) auto
    have "\<forall>p\<in>set ys. \<forall>q\<in>set xs. fst p = fst q \<longrightarrow> sortObjectKeys (snd p) = sortObjectKeys (snd q)"
    proof (intro ballI impI)
      fix p q assume "p \<in> set ys" "q \<in> set xs" "fst p = fst q"
      then show "sortObjectKeys (snd p) = sortObjectKeys (snd q)"
        using obj(4) by metis
    qed
    moreover have "set (map fst ys) = set (map fst xs)"
      using obj(3) by simp
    ultimately show "set (map ?f ys) \<subseteq> set (map ?f xs)"
      by (intro sub)
  qed
  moreover have "distinct (map fst (map ?f xs))" "distinct (map fst (map ?f ys))"
    using obj by (simp_all only: fst_f)
  ultimately have "sort_key fst (map ?f xs) = sort_key fst (map ?f ys)"
    by (rule sort_key_fst_unique)
  then show ?case by simp
qed simp_all

lemma generateContentHash_key_order:
  "sameUpToKeyOrder x y \<Longrightarrow> generateContentHash sha cfg x typ = generateContentHash sha cfg y typ"
  by (simp add: generateContentHash_def contentString_def sortObjectKeys_canonical)

lemma sameUpToKeyOrder_example:
  "sameUpToKeyOrder (JObj [(''a'', JNum 1), (''b'', JObj [(''c'', JNull), (''d'', JArr [])])])
                    (JObj [(''b'', JObj [(''d'', JArr []), (''c'', JNull)]), (''a'', JNum 1)])"
  by (auto intro!: sameUpToKeyOrder.intros)

text \<open>C2, at the failing input. The \<^verbatim>\<open>generateContentHash\<close> of \<^verbatim>\<open>part_000\<close> digests the
  content as it is given: \<^verbatim>\<open>{a: 1, b: 2}\<close> and \<^verbatim>\<open>{b: 2, a: 1}\<close> get different digest
  inputs. The one of \<^verbatim>\<open>src/print-formatter.js\<close> digests the same text for both.\<close>

theorem key_order_changes_digest_input_part0:
  "contentString_part0 [(''lineWidth'', 384)] (JObj [(''a'', JNum 1), (''b'', JNum 2)]) ''kot''
     \<noteq> contentString_part0 [(''lineWidth'', 384)] (JObj [(''b'', JNum 2), (''a'', JNum 1)]) ''kot''
   \<and> contentString [(''lineWidth'', 384)] (JObj [(''a'', JNum 1), (''b'', JNum 2)]) ''kot''
     = contentString [(''lineWidth'', 384)] (JObj [(''b'', JNum 2), (''a'', JNum 1)]) ''kot''"
  by (simp add: contentString_part0_def contentString_def configJSON_def quoteJSON_def
      escapeChar_def numberToString_def digitChar_def setProperty_def arrayIndex_def isDigit_def)

subsection \<open>Bill item rows\<close>

text \<open>C7, at the failing input. The text layout of the second class of \<^verbatim>\<open>part_000\<close>
  renders the unit price 10 of an item as \<^verbatim>\<open>10\<close>, without decimals; the line total is
  rendered \<^verbatim>\<open>20.00\<close> and the quantity right-aligned in three columns.\<close>

theorem bill_row_unit_price_without_decimals:
  "billItemRow 32 \<lparr>name = ''Tea'', price = Some 10, quantity = Some 2\<rparr>
     = [CHR 0x1B, CHR ''a'', CHR 0x00, CHR 0x1B, CHR ''!'', CHR 0x00] @ ''Tea       ''
       @ ''      10'' @ [CHR 0x1B, CHR ''E'', CHR 0x01] @ ''  2'' @ [CHR 0x1B, CHR ''E'', CHR 0x00]
       @ ''     20.00'' @ [CHR 0x1B, CHR ''!'', CHR 0x00, CHR 0x0A, CHR 0x0A]"
  by (simp add: billItemRow_def Let_def orZero_def trim_Tea padStart_def padEnd_def toFixed2_def
      numberToString_def showNat_examples replicate_numeral_unfold)

end
